theory Spec2Isabelle
  imports Complex_Main "HOL-Library.Sublist"
begin

section \<open>Python strings\<close>

text \<open>
  Handles and message texts are Python \<open>str\<close> values. They are modelled as \<open>string\<close>
  (byte lists); a handle is an ASCII nickname, and the few non-ASCII characters of the
  source's literals are written as their UTF-8 bytes. The operations below are the ones
  the source applies to strings.
\<close>

definition ascii_uppercase :: string where
  "ascii_uppercase = ''ABCDEFGHIJKLMNOPQRSTUVWXYZ''"

definition ascii_lowercase :: string where
  "ascii_lowercase = ''abcdefghijklmnopqrstuvwxyz''"

definition lower_char :: "char \<Rightarrow> char" where
  "lower_char c = (case map_of (zip ascii_uppercase ascii_lowercase) c of Some d \<Rightarrow> d | None \<Rightarrow> c)"

definition upper_char :: "char \<Rightarrow> char" where
  "upper_char c = (case map_of (zip ascii_lowercase ascii_uppercase) c of Some d \<Rightarrow> d | None \<Rightarrow> c)"

definition lower :: "string \<Rightarrow> string" where
  \<comment> \<open>\<open>s.lower()\<close>\<close>
  "lower s = map lower_char s"

definition capitalize :: "string \<Rightarrow> string" where
  \<comment> \<open>\<open>s.capitalize()\<close>: first character upper case, the rest lower case\<close>
  "capitalize s = (case s of [] \<Rightarrow> [] | c # cs \<Rightarrow> upper_char c # map lower_char cs)"

fun str_contains :: "string \<Rightarrow> string \<Rightarrow> bool" where
  \<comment> \<open>\<open>sub in s\<close>: \<open>sub\<close> occurs in \<open>s\<close> as a contiguous substring\<close>
  "str_contains sub [] = (sub = [])"
| "str_contains sub (c # cs) = (prefix sub (c # cs) \<or> str_contains sub cs)"

definition digit_char :: "nat \<Rightarrow> char" where
  "digit_char d = ''0123456789'' ! d"

fun str_nat :: "nat \<Rightarrow> string" where
  "str_nat n = (if n < 10 then [digit_char n] else str_nat (n div 10) @ [digit_char (n mod 10)])"

declare str_nat.simps [simp del]

definition str_int :: "int \<Rightarrow> string" where
  \<comment> \<open>\<open>str(i)\<close> for an integer: decimal digits, with a sign when negative\<close>
  "str_int i = (if i < 0 then CHR ''-'' # str_nat (nat (- i)) else str_nat (nat i))"

definition py_range :: "int \<Rightarrow> int \<Rightarrow> int list" where
  \<comment> \<open>\<open>range(a, b)\<close>\<close>
  "py_range a b = [a..b - 1]"

definition truthy_str :: "string option \<Rightarrow> bool" where
  \<comment> \<open>truth value of an \<open>Optional[str]\<close>: \<open>None\<close> and the empty string are false\<close>
  "truthy_str v = (case v of None \<Rightarrow> False | Some s \<Rightarrow> s \<noteq> [])"

definition truthy_int :: "int option \<Rightarrow> bool" where
  \<comment> \<open>truth value of an \<open>Optional[int]\<close>: \<open>None\<close> and \<open>0\<close> are false\<close>
  "truthy_int v = (case v of None \<Rightarrow> False | Some i \<Rightarrow> i \<noteq> 0)"

section \<open>Profile derivation: \<open>IRCBotAdvanced._analyze_username\<close>\<close>

text \<open>
  The result dictionary has the keys \<open>'gender'\<close>, \<open>'age'\<close> and \<open>'city'\<close>, each present or
  absent. \<open>datetime.now().year\<close> is the parameter \<open>current_year\<close>.
\<close>

record analyzed_info =
  info_gender :: "string option"
  info_age :: "int option"
  info_city :: "string option"

definition male_indicators :: "string list" where
  "male_indicators = [''alex'', ''max'', ''tom'', ''ben'', ''sam'', ''mike'', ''dave'',
     ''john'', ''paul'', ''marc'', ''pierre'', ''jean'']"

definition female_indicators :: "string list" where
  "female_indicators = [''anna'', ''lisa'', ''emma'', ''sara'', ''julie'', ''marie'',
     ''chloe'', ''lea'', ''nina'', ''eva'', ''sophie'', ''claire'']"

definition cities :: "string list" where
  "cities = [''paris'', ''lyon'', ''marseille'', ''toulouse'', ''nice'', ''nantes'',
     ''strasbourg'', ''bordeaux'', ''lille'', ''rennes'']"

definition analyze_username :: "int \<Rightarrow> string \<Rightarrow> analyzed_info" where
  "analyze_username current_year username =
     (let username_lower = lower username;
          g = (case List.find (\<lambda>indicator. str_contains indicator username_lower) male_indicators of
                 Some indicator \<Rightarrow> Some ''Homme''
               | None \<Rightarrow>
                   (case List.find (\<lambda>indicator. str_contains indicator username_lower)
                           female_indicators of
                      Some indicator \<Rightarrow> Some ''Femme''
                    | None \<Rightarrow> None));
          a = (case List.find (\<lambda>year. str_contains (str_int year) username) (py_range 1980 2010) of
                 Some year \<Rightarrow> Some (current_year - year)
               | None \<Rightarrow> List.find (\<lambda>i. str_contains (str_int i) username) (py_range 18 100));
          c = (case List.find (\<lambda>city. str_contains city username_lower) cities of
                 Some city \<Rightarrow> Some (capitalize city)
               | None \<Rightarrow> None)
      in \<lparr>info_gender = g, info_age = a, info_city = c\<rparr>)"

section \<open>Data model\<close>

text \<open>
  The dataclasses \<open>UserProfile\<close> and \<open>BotProfile\<close>. \<open>whois_info\<close> is an optional
  dictionary; nothing in the program fills it in. The dictionary \<open>target_criteria\<close> is
  read with \<open>criteria.get(key, default)\<close> for the keys \<open>'age_min'\<close>, \<open>'age_max'\<close>
  and \<open>'gender'\<close>: an absent key is \<open>None\<close> here.
\<close>

record UserProfile =
  username :: string
  age :: "int option"
  gender :: "string option"
  city :: "string option"
  last_seen :: "string option"
  conversation_count :: int
  targeted :: bool
  whois_info :: "(string \<times> string) list option"

definition new_UserProfile :: "string \<Rightarrow> UserProfile" where
  \<comment> \<open>\<open>UserProfile(username=username)\<close>: every other field at its default\<close>
  "new_UserProfile u =
     \<lparr>username = u, age = None, gender = None, city = None, last_seen = None,
      conversation_count = 0, targeted = False, whois_info = None\<rparr>"

record target_criteria_dict =
  age_min :: "int option"
  age_max :: "int option"
  criteria_gender :: "string option"

record BotProfile =
  bot_name :: string
  bot_age :: int
  bot_gender :: string
  bot_city :: string
  bot_role :: string
  nickname :: string
  target_criteria :: target_criteria_dict

section \<open>Targeting policy: \<open>IRCBotAdvanced._matches_targeting_criteria\<close>\<close>

definition dict_get :: "'a option \<Rightarrow> 'a \<Rightarrow> 'a" where
  \<comment> \<open>\<open>d.get(key, default)\<close> on the entry of \<open>key\<close>\<close>
  "dict_get entry dflt = (case entry of None \<Rightarrow> dflt | Some v \<Rightarrow> v)"

definition matches_targeting_criteria :: "BotProfile \<Rightarrow> UserProfile \<Rightarrow> bool" where
  "matches_targeting_criteria bot_profile user_profile =
     (let criteria = target_criteria bot_profile;
          min_age = dict_get (age_min criteria) 18;
          max_age = dict_get (age_max criteria) 99;
          target_gender = dict_get (criteria_gender criteria) ''Tous''
      in if truthy_int (age user_profile)
            \<and> \<not> (min_age \<le> the (age user_profile) \<and> the (age user_profile) \<le> max_age)
         then False
         else if target_gender \<noteq> ''Tous'' \<and> truthy_str (gender user_profile)
                 \<and> the (gender user_profile) \<noteq> target_gender
         then False
         else True)"

section \<open>Profile store and write serializer: \<open>DatabaseManager\<close>\<close>

text \<open>
  A table is the list of its rows. \<open>users\<close> has the primary key \<open>username\<close>, so
  \<open>INSERT OR REPLACE\<close> deletes the rows of that name before it adds the new one;
  \<open>conversations\<close> is append-only (its \<open>id\<close> is the position). A write intent is the
  pair \<open>(operation, data)\<close> put on \<open>write_queue\<close>, which is a \<open>queue.Queue()\<close> with no
  \<open>maxsize\<close>: an unbounded FIFO.
  The JSON text of \<open>whois_info\<close> is kept as the dictionary it encodes. A call of
  \<open>sqlite3\<close> may raise; every such call sits in a \<open>try\<close> whose handler logs and goes on,
  and the flag \<open>sqlite_ok\<close> of the functions below says whether the call went through.
\<close>

record users_row =
  col_username :: string
  col_age :: "int option"
  col_gender :: "string option"
  col_city :: "string option"
  col_last_seen :: string
  col_conversation_count :: int
  col_targeted :: bool
  col_whois_info :: "(string \<times> string) list option"
  col_created_at :: string

record conversations_row =
  conv_username :: string
  conv_message :: string
  conv_timestamp :: string
  conv_bot_response :: string
  conv_prompt_used :: string
  conv_sentiment :: real

datatype write_intent = Save_user users_row | Save_conversation conversations_row

record DatabaseManager =
  users :: "users_row list"
  conversations :: "conversations_row list"
  write_queue :: "write_intent list"

definition execute_write_operation :: "bool \<Rightarrow> write_intent \<Rightarrow> DatabaseManager \<Rightarrow> DatabaseManager" where
  \<comment> \<open>\<open>INSERT OR REPLACE INTO users\<close>, \<open>INSERT INTO conversations\<close>\<close>
  "execute_write_operation sqlite_ok intent d =
     (if sqlite_ok then
        (case intent of
           Save_user data \<Rightarrow>
             d\<lparr>users := filter (\<lambda>r. col_username r \<noteq> col_username data) (users d) @ [data]\<rparr>
         | Save_conversation data \<Rightarrow> d\<lparr>conversations := conversations d @ [data]\<rparr>)
      else d)"

definition database_writer_iteration :: "bool \<Rightarrow> DatabaseManager \<Rightarrow> DatabaseManager" where
  \<comment> \<open>one turn of the loop of \<open>_database_writer\<close>; on \<open>queue.Empty\<close> it goes round again\<close>
  "database_writer_iteration sqlite_ok d =
     (case write_queue d of
        [] \<Rightarrow> d
      | intent # rest \<Rightarrow> execute_write_operation sqlite_ok intent (d\<lparr>write_queue := rest\<rparr>))"

fun database_writer :: "bool list \<Rightarrow> DatabaseManager \<Rightarrow> DatabaseManager" where
  \<comment> \<open>the loop \<open>while self.running\<close> (\<open>running\<close> is never cleared), run for as many turns
      as the list gives outcomes of \<open>sqlite3\<close>\<close>
  "database_writer [] d = d"
| "database_writer (sqlite_ok # oks) d = database_writer oks (database_writer_iteration sqlite_ok d)"

definition queue_put :: "write_intent \<Rightarrow> DatabaseManager \<Rightarrow> DatabaseManager" where
  \<comment> \<open>\<open>self.write_queue.put(intent)\<close>\<close>
  "queue_put intent d = d\<lparr>write_queue := write_queue d @ [intent]\<rparr>"

definition user_data :: "string \<Rightarrow> UserProfile \<Rightarrow> users_row" where
  \<comment> \<open>the tuple \<open>data\<close> of \<open>save_user_profile\<close>; \<open>now\<close> is \<open>datetime.now().isoformat()\<close>\<close>
  "user_data now user_profile =
     \<lparr>col_username = username user_profile,
      col_age = age user_profile,
      col_gender = gender user_profile,
      col_city = city user_profile,
      col_last_seen = (if truthy_str (last_seen user_profile) then the (last_seen user_profile) else now),
      col_conversation_count = conversation_count user_profile,
      col_targeted = targeted user_profile,
      col_whois_info =
        (case whois_info user_profile of None \<Rightarrow> None | Some w \<Rightarrow> if w = [] then None else Some w),
      col_created_at = now\<rparr>"

definition save_user_profile :: "string \<Rightarrow> UserProfile \<Rightarrow> DatabaseManager \<Rightarrow> DatabaseManager" where
  "save_user_profile now user_profile d = queue_put (Save_user (user_data now user_profile)) d"

definition conversation_data :: "string \<Rightarrow> string \<Rightarrow> string \<Rightarrow> string \<Rightarrow> conversations_row" where
  \<comment> \<open>the tuple \<open>data\<close> of \<open>save_conversation\<close>, which is called with the defaults
      \<open>prompt_used=""\<close> and \<open>sentiment=0.0\<close> throughout\<close>
  "conversation_data now u message bot_response =
     \<lparr>conv_username = u, conv_message = message, conv_timestamp = now,
      conv_bot_response = bot_response, conv_prompt_used = [], conv_sentiment = 0\<rparr>"

definition save_conversation :: "string \<Rightarrow> string \<Rightarrow> string \<Rightarrow> string \<Rightarrow> DatabaseManager \<Rightarrow> DatabaseManager" where
  "save_conversation now u message bot_response d =
     queue_put (Save_conversation (conversation_data now u message bot_response)) d"

definition get_user_profile :: "bool \<Rightarrow> DatabaseManager \<Rightarrow> string \<Rightarrow> UserProfile" where
  \<comment> \<open>\<open>SELECT * FROM users WHERE username = ?\<close> and \<open>fetchone()\<close>: a read of the table
      itself, not through the queue\<close>
  "get_user_profile sqlite_ok d u =
     (if sqlite_ok then
        (case List.find (\<lambda>r. col_username r = u) (users d) of
           Some result \<Rightarrow>
             \<lparr>username = col_username result, age = col_age result, gender = col_gender result,
              city = col_city result, last_seen = Some (col_last_seen result),
              conversation_count = col_conversation_count result,
              targeted = col_targeted result,
              whois_info =
                (case col_whois_info result of None \<Rightarrow> None | Some w \<Rightarrow> if w = [] then None else Some w)\<rparr>
         | None \<Rightarrow> new_UserProfile u)
      else new_UserProfile u)"

section \<open>Text generation: \<open>DeepSeekIntegration\<close>\<close>

text \<open>
  The HTTP request is the environment's: \<open>api_result\<close> is what \<open>requests.post\<close> and the
  reading of the JSON body come to. \<open>Http_response code content\<close> is a response with
  that status code, \<open>content\<close> the text at \<open>data['choices'][0]['message']['content']\<close>
  (\<open>None\<close> when the body has no such entry, which raises inside the \<open>try\<close>).
  \<open>random.choice\<close> takes its index from the environment.
\<close>

datatype api_result =
    Http_response int "string option"
  | Timeout
  | ConnectionError
  | Other_exception

definition e_acute :: string where "e_acute = [CHR 0xC3, CHR 0xA9]"
definition e_grave :: string where "e_grave = [CHR 0xC3, CHR 0xA8]"
definition a_grave :: string where "a_grave = [CHR 0xC3, CHR 0xA0]"
definition c_cedilla :: string where "c_cedilla = [CHR 0xC3, CHR 0xA7]"
definition emoji_warning :: string where
  "emoji_warning = [CHR 0xE2, CHR 0x9A, CHR 0xA0, CHR 0xEF, CHR 0xB8, CHR 0x8F]"
definition emoji_cross :: string where "emoji_cross = [CHR 0xE2, CHR 0x9D, CHR 0x8C]"
definition emoji_hourglass :: string where "emoji_hourglass = [CHR 0xE2, CHR 0x8F, CHR 0xB3]"
definition emoji_clock :: string where "emoji_clock = [CHR 0xE2, CHR 0x8F, CHR 0xB0]"
definition emoji_globe :: string where "emoji_globe = [CHR 0xF0, CHR 0x9F, CHR 0x8C, CHR 0x90]"
definition emoji_smile :: string where "emoji_smile = [CHR 0xF0, CHR 0x9F, CHR 0x98, CHR 0x8A]"
definition emoji_grin :: string where "emoji_grin = [CHR 0xF0, CHR 0x9F, CHR 0x98, CHR 0x84]"

definition is_space :: "char \<Rightarrow> bool" where
  "is_space c = (c \<in> set [CHR 0x09, CHR 0x0A, CHR 0x0B, CHR 0x0C, CHR 0x0D,
                            CHR 0x1C, CHR 0x1D, CHR 0x1E, CHR 0x1F, CHR 0x20])"

definition strip :: "string \<Rightarrow> string" where
  \<comment> \<open>\<open>s.strip()\<close>\<close>
  "strip s = rev (dropWhile is_space (rev (dropWhile is_space s)))"

definition lstrip :: "string \<Rightarrow> string \<Rightarrow> string" where
  \<comment> \<open>\<open>s.lstrip(chars)\<close>\<close>
  "lstrip chars s = dropWhile (\<lambda>c. c \<in> set chars) s"

fun split_words :: "string \<Rightarrow> string \<Rightarrow> string list" where
  \<comment> \<open>\<open>s.split()\<close> is \<open>split_words [] s\<close>; the first argument is the word being read, reversed\<close>
  "split_words w [] = (if w = [] then [] else [rev w])"
| "split_words w (c # cs) =
     (if is_space c then (if w = [] then [] else [rev w]) @ split_words [] cs
      else split_words (c # w) cs)"

definition random_choice :: "'a list \<Rightarrow> nat \<Rightarrow> 'a" where
  \<comment> \<open>\<open>random.choice(xs)\<close> on a non-empty list, the draw being \<open>k\<close>\<close>
  "random_choice xs k = xs ! (k mod length xs)"

definition fallback_responses :: "BotProfile \<Rightarrow> string list" where
  "fallback_responses bot_profile =
     [''Salut ! Comment '' @ c_cedilla @ ''a va ? Je suis '' @ bot_name bot_profile @ '' de ''
        @ bot_city bot_profile @ '' '' @ emoji_smile,
      ''C'est int'' @ e_acute @ ''ressant ce que tu dis ! Raconte-moi en plus ?'',
      ''Ah oui, je vois ! Moi aussi j'ai v'' @ e_acute @ ''cu '' @ c_cedilla @ ''a r'' @ e_acute
        @ ''cemment.'',
      ''En tant que '' @ bot_role bot_profile @ '', je peux te dire que...'',
      ''Haha, c'est marrant ! Tu as l'air sympa '' @ emoji_grin]"

definition get_fallback_response :: "nat \<Rightarrow> BotProfile \<Rightarrow> string" where
  "get_fallback_response k bot_profile =
     ''[Mode d'' @ e_acute @ ''mo] '' @ random_choice (fallback_responses bot_profile) k"

definition text_no_api_key :: string where
  "text_no_api_key = emoji_warning @ '' Cl'' @ e_acute @ '' API DeepSeek non configur'' @ e_acute
     @ ''e. Allez dans Configuration API.''"

definition text_unauthorized :: string where
  "text_unauthorized = emoji_cross @ '' Cl'' @ e_acute @ '' API invalide. V'' @ e_acute
     @ ''rifiez votre configuration.''"

definition text_rate_limited :: string where
  "text_rate_limited = emoji_hourglass @ '' Limite de taux atteinte. Attendez un moment.''"

definition text_api_error :: "int \<Rightarrow> string" where
  "text_api_error status_code = emoji_cross @ '' Erreur API: '' @ str_int status_code"

definition text_timeout :: string where
  "text_timeout = emoji_clock @ '' Timeout de l'API. R'' @ e_acute @ ''essayez.''"

definition text_connection_error :: string where
  "text_connection_error = emoji_globe @ '' Probl'' @ e_grave @ ''me de connexion '' @ a_grave
     @ '' l'API.''"

definition generate_response :: "bool \<Rightarrow> api_result \<Rightarrow> nat \<Rightarrow> BotProfile \<Rightarrow> string" where
  \<comment> \<open>the message, the user's profile and the context only go into the request\<close>
  "generate_response api_key_set result k bot_profile =
     (if \<not> api_key_set then text_no_api_key
      else
        (case result of
           Http_response status_code content \<Rightarrow>
             if status_code = 200 then
               (case content of
                  Some text \<Rightarrow> strip text
                | None \<Rightarrow> get_fallback_response k bot_profile)
             else if status_code = 401 then text_unauthorized
             else if status_code = 429 then text_rate_limited
             else text_api_error status_code
         | Timeout \<Rightarrow> text_timeout
         | ConnectionError \<Rightarrow> text_connection_error
         | Other_exception \<Rightarrow> get_fallback_response k bot_profile))"

section \<open>The bot: \<open>IRCBotAdvanced\<close>\<close>

text \<open>
  The state of the bot that the handlers share. \<open>analysis_queue\<close> is a
  \<open>queue.Queue(maxsize=50)\<close> of \<open>(connection, username)\<close>; the bot has one connection, so
  a task is its handle. \<open>privmsgs\<close> records what \<open>connection.privmsg\<close> has sent, oldest
  first. Log lines and updates of the window are left out. What a call takes from outside
  is its \<open>env\<close>: the clock, whether the connection is up, whether \<open>privmsg\<close> and a read
  of \<open>sqlite3\<close> go through, the draw of \<open>random.choice\<close>, and the text-generation
  service.
\<close>

record IRCBotAdvanced =
  bot_profile :: BotProfile
  db :: DatabaseManager
  users_being_analyzed :: "string set"
  analysis_queue :: "string list"
  analysis_worker_started :: bool
  privmsgs :: "(string \<times> string) list"

record env =
  now :: string
  current_year :: int
  is_connected :: bool
  privmsg_ok :: bool
  sqlite_read_ok :: bool
  choice :: nat
  api_key_set :: bool
  api :: api_result

definition new_IRCBotAdvanced :: "BotProfile \<Rightarrow> DatabaseManager \<Rightarrow> IRCBotAdvanced" where
  \<comment> \<open>\<open>IRCBotAdvanced.__init__\<close>; the second argument is \<open>app_instance.db\<close>\<close>
  "new_IRCBotAdvanced bp d =
     \<lparr>bot_profile = bp, db = d, users_being_analyzed = {}, analysis_queue = [],
      analysis_worker_started = False, privmsgs = []\<rparr>"

definition analysis_queue_maxsize :: nat where
  "analysis_queue_maxsize = 50"

definition opening_messages :: "string \<Rightarrow> UserProfile \<Rightarrow> string list" where
  "opening_messages u user_profile =
     [''Salut '' @ u @ '' ! Comment '' @ c_cedilla @ ''a va ?'',
      ''Hello '' @ u @ '' ! Tu es souvent sur ce salon ?'',
      ''Coucou '' @ u @ '' ! Belle journ'' @ e_acute @ ''e n'est-ce pas ?'',
      ''Salut '' @ u @ '' ! Tu fais quoi de beau ?'']
     @ (if truthy_str (city user_profile)
        then [''Salut '' @ u @ '' ! Tu es de '' @ the (city user_profile) @ '' aussi ?'']
        else [])
     @ (if truthy_int (age user_profile) \<and> 18 \<le> the (age user_profile)
             \<and> the (age user_profile) \<le> 25
        then [''Hey '' @ u @ '' ! Tu es '' @ e_acute @ ''tudiant ?'']
        else [])"

definition initiate_conversation :: "env \<Rightarrow> string \<Rightarrow> UserProfile \<Rightarrow> IRCBotAdvanced \<Rightarrow> IRCBotAdvanced" where
  "initiate_conversation e u user_profile s =
     (if \<not> is_connected e then s
      else
        (let message = random_choice (opening_messages u user_profile) (choice e)
         in if \<not> privmsg_ok e then s
            else
              (let s1 = s\<lparr>privmsgs := privmsgs s @ [(u, message)]\<rparr>;
                   user_profile1 =
                     user_profile\<lparr>conversation_count := conversation_count user_profile + 1\<rparr>
               in s1\<lparr>db := save_user_profile (now e) user_profile1 (db s1)\<rparr>)))"

definition merged_profile :: "env \<Rightarrow> string \<Rightarrow> IRCBotAdvanced \<Rightarrow> UserProfile" where
  \<comment> \<open>the first half of \<open>_analyze_user\<close>: \<open>user_profile\<close> as it stands when it is saved\<close>
  "merged_profile e u s =
     (let user_profile0 = get_user_profile (sqlite_read_ok e) (db s) u;
          user_profile1 = user_profile0\<lparr>last_seen := Some (now e)\<rparr>;
          analyzed_info = analyze_username (current_year e) u;
          user_profile2 =
            (if \<not> truthy_int (age user_profile1) \<and> truthy_int (info_age analyzed_info)
             then user_profile1\<lparr>age := info_age analyzed_info\<rparr> else user_profile1);
          user_profile3 =
            (if \<not> truthy_str (gender user_profile2) \<and> truthy_str (info_gender analyzed_info)
             then user_profile2\<lparr>gender := info_gender analyzed_info\<rparr> else user_profile2);
          user_profile4 =
            (if \<not> truthy_str (city user_profile3) \<and> truthy_str (info_city analyzed_info)
             then user_profile3\<lparr>city := info_city analyzed_info\<rparr> else user_profile3)
      in user_profile4\<lparr>targeted := matches_targeting_criteria (bot_profile s) user_profile4\<rparr>)"

definition analyze_user :: "env \<Rightarrow> string \<Rightarrow> IRCBotAdvanced \<Rightarrow> IRCBotAdvanced" where
  \<comment> \<open>\<open>_analyze_user\<close>; the \<open>finally\<close> clause is its last step\<close>
  "analyze_user e u s =
     (let user_profile = merged_profile e u s;
          s1 = s\<lparr>db := save_user_profile (now e) user_profile (db s)\<rparr>;
          s2 = (if targeted user_profile \<and> conversation_count user_profile = 0
                then initiate_conversation e u user_profile s1 else s1)
      in s2\<lparr>users_being_analyzed := users_being_analyzed s2 - {u}\<rparr>)"

definition enqueue_analysis :: "string \<Rightarrow> IRCBotAdvanced \<Rightarrow> IRCBotAdvanced option" where
  \<comment> \<open>\<open>self.analysis_queue.put((connection, name), block=False)\<close>; \<open>None\<close> is \<open>queue.Full\<close>\<close>
  "enqueue_analysis name s =
     (if length (analysis_queue s) < analysis_queue_maxsize
      then Some (s\<lparr>analysis_queue := analysis_queue s @ [name]\<rparr>)
      else None)"

fun namreply_loop :: "string list \<Rightarrow> IRCBotAdvanced \<Rightarrow> IRCBotAdvanced" where
  \<comment> \<open>the \<open>for\<close> loop of \<open>on_namreply\<close>; on \<open>queue.Full\<close> it breaks\<close>
  "namreply_loop [] s = s"
| "namreply_loop (name # names) s =
     (let clean_name = lstrip ''@+%&~'' name
      in if clean_name \<noteq> nickname (bot_profile s) \<and> clean_name \<notin> users_being_analyzed s
         then
           (let s1 = s\<lparr>users_being_analyzed := insert clean_name (users_being_analyzed s)\<rparr>
            in case enqueue_analysis clean_name s1 of
                 Some s2 \<Rightarrow> namreply_loop names s2
               | None \<Rightarrow> s1)
         else namreply_loop names s)"

definition on_namreply :: "string list \<Rightarrow> IRCBotAdvanced \<Rightarrow> IRCBotAdvanced" where
  \<comment> \<open>the argument is \<open>event.arguments\<close>; a missing third argument raises inside the \<open>try\<close>\<close>
  "on_namreply arguments s =
     (if length arguments < 3 then s
      else
        (let names = split_words [] (arguments ! 2);
             s1 = namreply_loop (take 20 names) s
         in s1\<lparr>analysis_worker_started := True\<rparr>))"

definition on_join :: "string \<Rightarrow> IRCBotAdvanced \<Rightarrow> IRCBotAdvanced" where
  "on_join nick s =
     (if nick \<noteq> nickname (bot_profile s) then
        (if nick \<notin> users_being_analyzed s then
           (let s1 = s\<lparr>users_being_analyzed := insert nick (users_being_analyzed s)\<rparr>
            in case enqueue_analysis nick s1 of
                 Some s2 \<Rightarrow> s2
               | None \<Rightarrow> s1)
         else s)
      else s)"

definition on_pubmsg :: "env \<Rightarrow> string \<Rightarrow> string \<Rightarrow> IRCBotAdvanced \<Rightarrow> IRCBotAdvanced" where
  "on_pubmsg e nick message s =
     (if nick = nickname (bot_profile s) then s
      else
        (let user_profile = (get_user_profile (sqlite_read_ok e) (db s) nick)\<lparr>last_seen := Some (now e)\<rparr>
         in s\<lparr>db := save_user_profile (now e) user_profile (db s)\<rparr>))"

definition generate_intelligent_response :: "env \<Rightarrow> string \<Rightarrow> string \<Rightarrow> IRCBotAdvanced \<Rightarrow> string \<times> IRCBotAdvanced" where
  \<comment> \<open>nothing in its \<open>try\<close> raises here: the reads fall back to defaults and
      \<open>generate_response\<close> returns a string in every case\<close>
  "generate_intelligent_response e u message s =
     (let response = generate_response (api_key_set e) (api e) (choice e) (bot_profile s)
      in (response, s\<lparr>db := save_conversation (now e) u message response (db s)\<rparr>))"

definition on_privmsg :: "env \<Rightarrow> string \<Rightarrow> string \<Rightarrow> IRCBotAdvanced \<Rightarrow> IRCBotAdvanced" where
  "on_privmsg e nick message s =
     (if nick = nickname (bot_profile s) then s
      else if \<not> is_connected e then s
      else
        (case generate_intelligent_response e nick message s of
           (response, s1) \<Rightarrow>
             if response \<noteq> [] \<and> privmsg_ok e
             then s1\<lparr>privmsgs := privmsgs s1 @ [(nick, response)]\<rparr>
             else s1))"

section \<open>Runs of the program\<close>

text \<open>
  The writer thread and the callers of \<open>save_user_profile\<close> and \<open>save_conversation\<close>
  meet at \<open>write_queue\<close> only. A run of the serializer is a sequence of events, each a
  \<open>put\<close> of some caller or a turn of the writer's loop, in the order in which they take
  effect on the queue.
\<close>

datatype db_event = Submit write_intent | Writer_turn bool

fun db_run :: "db_event list \<Rightarrow> DatabaseManager \<Rightarrow> DatabaseManager" where
  "db_run [] d = d"
| "db_run (Submit intent # evs) d = db_run evs (queue_put intent d)"
| "db_run (Writer_turn sqlite_ok # evs) d = db_run evs (database_writer_iteration sqlite_ok d)"

fun submitted :: "db_event list \<Rightarrow> write_intent list" where
  "submitted [] = []"
| "submitted (Submit intent # evs) = intent # submitted evs"
| "submitted (Writer_turn sqlite_ok # evs) = submitted evs"

definition sequential_replay :: "write_intent list \<Rightarrow> DatabaseManager \<Rightarrow> DatabaseManager" where
  \<comment> \<open>the intents applied to the tables one after the other, in the order of the list\<close>
  "sequential_replay intents d = foldl (\<lambda>d' intent. execute_write_operation True intent d') d intents"

text \<open>
  The handlers \<open>on_namreply\<close>, \<open>on_join\<close>, \<open>on_pubmsg\<close> and \<open>on_privmsg\<close> run one at a
  time on the thread of the IRC client (\<open>bot_instance.start\<close>). \<open>on_namreply\<close> starts
  the one thread of \<open>_analysis_worker\<close>, which takes a task from \<open>analysis_queue\<close> and
  runs \<open>_analyze_user\<close> on it; the writer thread runs beside them. A configuration is
  the state of the bot with the task the analysis worker holds, if any. \<open>_analyze_user\<close>
  touches \<open>users_being_analyzed\<close> in its last step only, so it is one step here, taken
  when it finishes.
\<close>

type_synonym config = "IRCBotAdvanced \<times> string option"

inductive step :: "config \<Rightarrow> config \<Rightarrow> bool" where
  join: "step (s, w) (on_join nick s, w)"
| namreply: "step (s, w) (on_namreply arguments s, w)"
| pubmsg: "step (s, w) (on_pubmsg e nick message s, w)"
| privmsg: "step (s, w) (on_privmsg e nick message s, w)"
| writer: "step (s, w) (s\<lparr>db := database_writer_iteration sqlite_ok (db s)\<rparr>, w)"
| worker_get:
    "analysis_worker_started s \<Longrightarrow> analysis_queue s = u # rest
       \<Longrightarrow> step (s, None) (s\<lparr>analysis_queue := rest\<rparr>, Some u)"
| worker_analyze: "step (s, Some u) (analyze_user e u s, None)"

inductive reachable :: "config \<Rightarrow> bool" where
  init: "reachable (new_IRCBotAdvanced bp d, None)"
| after: "reachable c \<Longrightarrow> step c c' \<Longrightarrow> reachable c'"

definition tasks :: "config \<Rightarrow> string list" where
  \<comment> \<open>the analysis tasks that exist: those queued and the one the worker holds\<close>
  "tasks c = analysis_queue (fst c) @ (case snd c of None \<Rightarrow> [] | Some u \<Rightarrow> [u])"

definition drain_writes :: "IRCBotAdvanced \<Rightarrow> IRCBotAdvanced" where
  \<comment> \<open>the writer has as many turns as the queue is long, \<open>sqlite3\<close> working in each\<close>
  "drain_writes s =
     s\<lparr>db := database_writer (replicate (length (write_queue (db s))) True) (db s)\<rparr>"

definition writer_turn :: "bool \<Rightarrow> IRCBotAdvanced \<Rightarrow> IRCBotAdvanced" where
  \<comment> \<open>one turn of the writer's loop, as a step of the whole program\<close>
  "writer_turn sqlite_ok s = s\<lparr>db := database_writer_iteration sqlite_ok (db s)\<rparr>"

definition sent_to :: "string \<Rightarrow> IRCBotAdvanced \<Rightarrow> string list" where
  \<comment> \<open>the texts sent to a handle, oldest first\<close>
  "sent_to h s = map snd (filter (\<lambda>m. fst m = h) (privmsgs s))"

section \<open>Notions used in the proofs\<close>

definition flushed :: "DatabaseManager \<Rightarrow> DatabaseManager" where
  \<comment> \<open>the tables once everything now on the queue has been applied\<close>
  "flushed d = sequential_replay (write_queue d) (d\<lparr>write_queue := []\<rparr>)"

definition pipeline_inv :: "IRCBotAdvanced \<Rightarrow> string list \<Rightarrow> bool" where
  \<comment> \<open>no handle has two tasks, and every handle with a task is marked in flight;
      \<open>held\<close> is what the worker holds\<close>
  "pipeline_inv s held \<longleftrightarrow>
     distinct (analysis_queue s @ held) \<and> set (analysis_queue s @ held) \<subseteq> users_being_analyzed s"

definition marked_without_task :: "string \<Rightarrow> config \<Rightarrow> bool" where
  "marked_without_task h c \<longleftrightarrow> h \<in> users_being_analyzed (fst c) \<and> h \<notin> set (tasks c)"

definition engages :: "env \<Rightarrow> string \<Rightarrow> IRCBotAdvanced \<Rightarrow> bool" where
  \<comment> \<open>\<open>_analyze_user\<close> calls \<open>_initiate_conversation\<close> and the message goes out\<close>
  "engages e u s \<longleftrightarrow>
     targeted (merged_profile e u s) \<and> conversation_count (merged_profile e u s) = 0
     \<and> is_connected e \<and> privmsg_ok e"

definition stored_count :: "string \<Rightarrow> DatabaseManager \<Rightarrow> int" where
  \<comment> \<open>the conversation counter that a read of the store gives for a handle\<close>
  "stored_count h d = conversation_count (get_user_profile True d h)"

section \<open>Inputs for the examples\<close>

definition example_bot :: "int \<Rightarrow> int \<Rightarrow> string \<Rightarrow> BotProfile" where
  \<comment> \<open>a profile as \<open>start_bot\<close> builds it from the three targeting fields of the window\<close>
  "example_bot lo hi g =
     \<lparr>bot_name = ''Lea'', bot_age = 25, bot_gender = ''Femme'', bot_city = ''Lyon'',
      bot_role = ''Etudiante'', nickname = ''Lea42'',
      target_criteria = \<lparr>age_min = Some lo, age_max = Some hi, criteria_gender = Some g\<rparr>\<rparr>"

definition new_DatabaseManager :: DatabaseManager where
  \<comment> \<open>\<open>DatabaseManager.__init__\<close> on a fresh file: empty tables, empty queue\<close>
  "new_DatabaseManager = \<lparr>users = [], conversations = [], write_queue = []\<rparr>"

definition example_env :: env where
  "example_env =
     \<lparr>now = ''2026-11-03T10:00:00'', current_year = 2026, is_connected = True,
      privmsg_ok = True, sqlite_read_ok = True, choice = 0, api_key_set = True,
      api = Timeout\<rparr>"

definition example_row :: "string \<Rightarrow> int option \<Rightarrow> users_row" where
  \<comment> \<open>a stored profile of which only the age may be known\<close>
  "example_row u a =
     \<lparr>col_username = u, col_age = a, col_gender = None, col_city = None,
      col_last_seen = ''2026-11-02T09:00:00'', col_conversation_count = 0,
      col_targeted = False, col_whois_info = None, col_created_at = ''2026-11-02T09:00:00''\<rparr>"

definition seeded :: "int \<Rightarrow> IRCBotAdvanced" where
  \<comment> \<open>a bot whose store holds one profile, of \<open>bob25\<close>, with the given age\<close>
  "seeded a =
     new_IRCBotAdvanced (example_bot 18 35 ''Tous'')
       (new_DatabaseManager\<lparr>users := [example_row ''bob25'' (Some a)]\<rparr>)"

definition example_events :: "db_event list" where
  "example_events =
     [Submit (Save_user (example_row ''bob25'' (Some 25))),
      Submit (Save_user (example_row ''zoe'' None)),
      Writer_turn True,
      Submit (Save_user (example_row ''bob25'' (Some 40))),
      Writer_turn True]"

definition example_state :: IRCBotAdvanced where
  \<comment> \<open>the bot as it starts, on an empty store\<close>
  "example_state = new_IRCBotAdvanced (example_bot 18 35 ''Tous'') new_DatabaseManager"

definition crowd :: "string list" where
  \<comment> \<open>fifty handles, \<open>user1\<close> to \<open>user50\<close>\<close>
  "crowd = map (\<lambda>i. ''user'' @ str_int i) [1..50]"

definition crowd_state :: IRCBotAdvanced where
  \<comment> \<open>the bot after the fifty have joined and before the worker has taken a task\<close>
  "crowd_state = foldl (\<lambda>s nick. on_join nick s) example_state crowd"

definition names_reply :: "string list" where
  \<comment> \<open>the arguments of a names reply that lists the one handle \<open>zoe\<close>\<close>
  "names_reply = [''='', ''#accueil'', ''zoe'']"

definition engaged_once :: IRCBotAdvanced where
  \<comment> \<open>the names reply has come, the worker has taken the task and analysed \<open>zoe\<close>\<close>
  "engaged_once =
     analyze_user example_env ''zoe'' ((on_namreply names_reply example_state)\<lparr>analysis_queue := []\<rparr>)"

definition spoken :: IRCBotAdvanced where
  \<comment> \<open>then \<open>zoe\<close> says something in the channel, before the writer has had a turn\<close>
  "spoken = on_pubmsg example_env ''zoe'' ''bonjour'' engaged_once"

definition persisted :: IRCBotAdvanced where
  \<comment> \<open>then the writer applies the three intents that are queued\<close>
  "persisted = writer_turn True (writer_turn True (writer_turn True spoken))"

definition engaged_twice :: IRCBotAdvanced where
  \<comment> \<open>then \<open>zoe\<close> joins again, and the worker takes the task and analyses her\<close>
  "engaged_twice =
     analyze_user example_env ''zoe'' ((on_join ''zoe'' persisted)\<lparr>analysis_queue := []\<rparr>)"

section \<open>Evaluating the string functions\<close>

lemma str_nat_numeral:
  "str_nat (numeral k) = (if (numeral k :: nat) < 10 then [digit_char (numeral k)]
     else str_nat (numeral k div 10) @ [digit_char (numeral k mod 10)])"
  by (rule str_nat.simps)

lemma str_nat_0: "str_nat 0 = ''0''"
  by (subst str_nat.simps) (simp add: digit_char_def)

lemma str_nat_1: "str_nat 1 = ''1''"
  by (subst str_nat.simps) (simp add: digit_char_def)

lemma str_nat_Suc_0: "str_nat (Suc 0) = ''1''"
  by (subst str_nat.simps) (simp add: digit_char_def)

lemmas str_eval = str_int_def str_nat_numeral str_nat_0 str_nat_1 str_nat_Suc_0 digit_char_def

lemmas case_eval = lower_def lower_char_def upper_char_def capitalize_def
  ascii_uppercase_def ascii_lowercase_def

lemma find_upto_Some:
  "List.find P [a..b] = Some x \<longleftrightarrow> a \<le> x \<and> x \<le> b \<and> P x \<and> (\<forall>y. a \<le> y \<and> y < x \<longrightarrow> \<not> P y)"
proof (induction a b rule: upto.induct)
  case (1 i j)
  show ?case
  proof (cases "i \<le> j")
    case False
    then show ?thesis by (auto simp: upto.simps[of i j])
  next
    case True
    note ij = this
    show ?thesis
    proof (cases "P i")
      case True
      with ij show ?thesis
        by (subst upto.simps) (auto simp: not_less intro: antisym)
    next
      case False
      have "(\<forall>y. i \<le> y \<and> y < x \<longrightarrow> \<not> P y) \<longleftrightarrow> (\<forall>y. i + 1 \<le> y \<and> y < x \<longrightarrow> \<not> P y)" 
        using False by (metis add1_zle_eq order_le_less)
      moreover have "P x \<Longrightarrow> i \<le> x \<longleftrightarrow> i + 1 \<le> x"
        using False by (metis add1_zle_eq order_le_less) 
      ultimately show ?thesis
        using ij False "1.IH"[OF ij] by (subst upto.simps) auto
    qed
  qed
qed

lemma find_upto_None:
  "List.find P [a..b] = None \<longleftrightarrow> (\<forall>y. a \<le> y \<and> y \<le> b \<longrightarrow> \<not> P y)"
  by (auto simp: find_None_iff)

lemma find_Some_D: "List.find P xs = Some x \<Longrightarrow> x \<in> set xs \<and> P x"
  by (induction xs) (auto split: if_splits)

lemma find_is_Some: "(\<exists>x. List.find P xs = Some x) \<longleftrightarrow> (\<exists>x \<in> set xs. P x)"
  by (induction xs) auto

lemma gender_scan:
  "info_gender (analyze_username cy u) =
     (if \<exists>m \<in> set male_indicators. str_contains m (lower u) then Some ''Homme''
      else if \<exists>f \<in> set female_indicators. str_contains f (lower u) then Some ''Femme''
      else None)"
proof -
  let ?M = "List.find (\<lambda>indicator. str_contains indicator (lower u)) male_indicators"
  let ?F = "List.find (\<lambda>indicator. str_contains indicator (lower u)) female_indicators"
  have g: "info_gender (analyze_username cy u) =
      (case ?M of Some indicator \<Rightarrow> Some ''Homme''
       | None \<Rightarrow> (case ?F of Some indicator \<Rightarrow> Some ''Femme'' | None \<Rightarrow> None))"
    unfolding analyze_username_def Let_def by simp
  have m: "(\<exists>x. ?M = Some x) \<longleftrightarrow> (\<exists>m \<in> set male_indicators. str_contains m (lower u))"
    by (rule find_is_Some)
  have f: "(\<exists>x. ?F = Some x) \<longleftrightarrow> (\<exists>f \<in> set female_indicators. str_contains f (lower u))"
    by (rule find_is_Some)
  show ?thesis
    unfolding g using m f by (cases ?M; cases ?F) auto
qed

lemma alex_gender: "List.find (\<lambda>indicator. str_contains indicator (lower ''alex1990paris07'')) male_indicators = Some ''alex''"
  by (simp add: male_indicators_def case_eval)
lemma alex_year: "List.find (\<lambda>year. str_contains (str_int year) ''alex1990paris07'') (py_range 1980 2010) = Some 1990"
  by (simp add: str_eval py_range_def)
lemma alex_city: "List.find (\<lambda>city. str_contains city (lower ''alex1990paris07'')) cities = Some ''paris''"
  by (simp add: cities_def case_eval)
lemma alex_derived: "analyze_username cy ''alex1990paris07'' = \<lparr>info_gender = Some ''Homme'', info_age = Some (cy - 1990), info_city = Some ''Paris''\<rparr>"
  unfolding analyze_username_def Let_def alex_gender alex_year alex_city
  by (simp add: case_eval)


lemma find_py_range_Some:
  "List.find P (py_range a b) = Some x \<longleftrightarrow> a \<le> x \<and> x < b \<and> P x \<and> (\<forall>y. a \<le> y \<and> y < x \<longrightarrow> \<not> P y)"
  unfolding py_range_def find_upto_Some by auto

lemma find_py_range_None:
  "List.find P (py_range a b) = None \<longleftrightarrow> (\<forall>y. a \<le> y \<and> y < b \<longrightarrow> \<not> P y)"
  unfolding py_range_def find_upto_None by auto

lemma age_scan:
  "info_age (analyze_username cy u) =
     (let Y = {y. 1980 \<le> y \<and> y \<le> 2009 \<and> str_contains (str_int y) u};
          A = {i. 18 \<le> i \<and> i \<le> 99 \<and> str_contains (str_int i) u}
      in if Y \<noteq> {} then Some (cy - Min Y) else if A \<noteq> {} then Some (Min A) else None)"
proof -
  define Y where "Y = {y. 1980 \<le> y \<and> y \<le> 2009 \<and> str_contains (str_int y) u}"
  define A where "A = {i. 18 \<le> i \<and> i \<le> 99 \<and> str_contains (str_int i) u}"
  let ?fy = "List.find (\<lambda>year. str_contains (str_int year) u) (py_range 1980 2010)"
  let ?fa = "List.find (\<lambda>i. str_contains (str_int i) u) (py_range 18 100)"
  have a: "info_age (analyze_username cy u) =
      (case ?fy of Some year \<Rightarrow> Some (cy - year) | None \<Rightarrow> ?fa)"
    unfolding analyze_username_def Let_def by simp
  have finY: "finite Y"
    by (rule finite_subset[of _ "{1980..2009}"]) (auto simp: Y_def)
  have finA: "finite A"
    by (rule finite_subset[of _ "{18..99}"]) (auto simp: A_def)
  have y_some: "Y \<noteq> {} \<and> Min Y = y" if "?fy = Some y" for y
  proof -
    from that[unfolded find_py_range_Some] have "y \<in> Y" and "\<forall>z \<in> Y. y \<le> z"
      unfolding Y_def by (simp, fastforce)
    with finY show ?thesis by (auto intro: Min_eqI)
  qed
  have y_none: "Y = {}" if "?fy = None"
    using that[unfolded find_py_range_None] unfolding Y_def by auto
  have a_some: "A \<noteq> {} \<and> Min A = i" if "?fa = Some i" for i
  proof -
    from that[unfolded find_py_range_Some] have "i \<in> A" and "\<forall>z \<in> A. i \<le> z"
      unfolding A_def by (simp, fastforce)
    with finA show ?thesis by (auto intro: Min_eqI)
  qed
  have a_none: "A = {}" if "?fa = None"
    using that[unfolded find_py_range_None] unfolding A_def by auto
  have "info_age (analyze_username cy u) =
      (if Y \<noteq> {} then Some (cy - Min Y) else if A \<noteq> {} then Some (Min A) else None)"
  proof (cases ?fy)
    case (Some y)
    with a y_some[OF Some] show ?thesis by simp
  next
    case None
    note fy = this
    show ?thesis
    proof (cases ?fa)
      case (Some i)
      with a fy y_none[OF fy] a_some[OF Some] show ?thesis by simp
    next
      case None
      with a fy y_none[OF fy] a_none[OF None] show ?thesis by simp
    qed
  qed
  then show ?thesis unfolding Y_def A_def Let_def .
qed

lemma tom_year:
  "List.find (\<lambda>year. str_contains (str_int year) ''tom2005x1985'') (py_range 1980 2010) = Some 1985"
  by (simp add: str_eval py_range_def)

lemma x2015_year:
  "List.find (\<lambda>year. str_contains (str_int year) ''x2015'') (py_range 1980 2010) = None"
  by (simp add: str_eval py_range_def)

lemma x2015_age:
  "List.find (\<lambda>i. str_contains (str_int i) ''x2015'') (py_range 18 100) = Some 20"
  by (simp add: str_eval py_range_def)

lemma bob9925_year:
  "List.find (\<lambda>year. str_contains (str_int year) ''bob9925'') (py_range 1980 2010) = None"
  by (simp add: str_eval py_range_def)

lemma bob9925_age:
  "List.find (\<lambda>i. str_contains (str_int i) ''bob9925'') (py_range 18 100) = Some 25"
  by (simp add: str_eval py_range_def)

lemma info_age_unfold:
  "info_age (analyze_username cy u) =
     (case List.find (\<lambda>year. str_contains (str_int year) u) (py_range 1980 2010) of
        Some year \<Rightarrow> Some (cy - year)
      | None \<Rightarrow> List.find (\<lambda>i. str_contains (str_int i) u) (py_range 18 100))"
  unfolding analyze_username_def Let_def by simp

lemma info_city_independent:
  "info_city (analyze_username cy u) = info_city (analyze_username cy' u)"
  unfolding analyze_username_def Let_def by simp

section \<open>Profile derivation\<close>

text \<open>
  C6. Derivation is a function of the handle and of the current year, which enters the
  age only: gender and city are the same in every year. The male indicators are scanned
  first and the female ones only when no male indicator occurs in the lower-cased handle.
  \<open>derive("alex1990paris07")\<close> is gender \<open>Homme\<close>, age \<open>current_year - 1990\<close>, city
  \<open>Paris\<close>, in every year.
\<close>

theorem derive_deterministic:
  "(\<forall>cy. analyze_username cy ''alex1990paris07'' =
      \<lparr>info_gender = Some ''Homme'', info_age = Some (cy - 1990), info_city = Some ''Paris''\<rparr>)
   \<and> (\<forall>cy u. info_gender (analyze_username cy u) =
        (if \<exists>m \<in> set male_indicators. str_contains m (lower u) then Some ''Homme''
         else if \<exists>f \<in> set female_indicators. str_contains f (lower u) then Some ''Femme''
         else None))
   \<and> (\<forall>cy cy' u. info_gender (analyze_username cy u) = info_gender (analyze_username cy' u)
        \<and> info_city (analyze_username cy u) = info_city (analyze_username cy' u))"
proof (intro conjI allI)
  fix cy cy' :: int and u :: string
  show "analyze_username cy ''alex1990paris07'' =
      \<lparr>info_gender = Some ''Homme'', info_age = Some (cy - 1990), info_city = Some ''Paris''\<rparr>"
    by (rule alex_derived)
  show "info_gender (analyze_username cy u) =
        (if \<exists>m \<in> set male_indicators. str_contains m (lower u) then Some ''Homme''
         else if \<exists>f \<in> set female_indicators. str_contains f (lower u) then Some ''Femme''
         else None)"
    by (rule gender_scan)
  show "info_gender (analyze_username cy u) = info_gender (analyze_username cy' u)"
    by (simp only: gender_scan)
  show "info_city (analyze_username cy u) = info_city (analyze_username cy' u)"
    by (rule info_city_independent)
qed

text \<open>
  C10. The age comes from the numerically smallest year of 1980..2009 whose digits occur
  in the handle, wherever they stand in it; when no such year occurs, from the
  numerically smallest number of 18..99 whose digits occur; a year from 2010 on is never
  matched as a year. So \<open>tom2005x1985\<close> gives \<open>current_year - 1985\<close>, \<open>x2015\<close> gives
  the age 20, and \<open>bob9925\<close> gives 25.
\<close>

theorem age_scan_numeric_order:
  "(\<forall>cy u. info_age (analyze_username cy u) =
      (let Y = {y. 1980 \<le> y \<and> y \<le> 2009 \<and> str_contains (str_int y) u};
           A = {i. 18 \<le> i \<and> i \<le> 99 \<and> str_contains (str_int i) u}
       in if Y \<noteq> {} then Some (cy - Min Y) else if A \<noteq> {} then Some (Min A) else None))
   \<and> (\<forall>cy. info_age (analyze_username cy ''tom2005x1985'') = Some (cy - 1985))
   \<and> (\<forall>cy. info_age (analyze_username cy ''x2015'') = Some 20)
   \<and> (\<forall>cy. info_age (analyze_username cy ''bob9925'') = Some 25)"
proof (intro conjI allI)
  fix cy :: int and u :: string
  show "info_age (analyze_username cy u) =
      (let Y = {y. 1980 \<le> y \<and> y \<le> 2009 \<and> str_contains (str_int y) u};
           A = {i. 18 \<le> i \<and> i \<le> 99 \<and> str_contains (str_int i) u}
       in if Y \<noteq> {} then Some (cy - Min Y) else if A \<noteq> {} then Some (Min A) else None)"
    by (rule age_scan)
  show "info_age (analyze_username cy ''tom2005x1985'') = Some (cy - 1985)"
    unfolding info_age_unfold tom_year by simp
  show "info_age (analyze_username cy ''x2015'') = Some 20"
    unfolding info_age_unfold x2015_year x2015_age by simp
  show "info_age (analyze_username cy ''bob9925'') = Some 25"
    unfolding info_age_unfold bob9925_year bob9925_age by simp
qed

section \<open>Targeting policy\<close>

text \<open>
  C5, as the claim states it, fails: an age of 0 is a known age outside \<open>[18, 35]\<close>, and
  the predicate holds, because \<open>if user_profile.age\<close> takes 0 for an unknown age.
\<close>

theorem targeting_counterexample:
  "age ((new_UserProfile ''bob'')\<lparr>age := Some 0\<rparr>) = Some 0
   \<and> \<not> (18 \<le> (0::int) \<and> (0::int) \<le> 35)
   \<and> matches_targeting_criteria (example_bot 18 35 ''Tous'') ((new_UserProfile ''bob'')\<lparr>age := Some 0\<rparr>)"
  by (simp add: matches_targeting_criteria_def example_bot_def new_UserProfile_def dict_get_def
      truthy_int_def truthy_str_def)

text \<open>
  C5, amended. The sentinel of "any gender" is the string \<open>Tous\<close>; the bounds default to
  18 and 99. A profile whose age is unknown (\<open>None\<close>, or 0) is never disqualified by the
  age criterion: the predicate is then decided by the gender alone. A profile whose age
  is known and not 0 must have it within the bounds, both included, or the predicate is
  false. The gender criterion fails the predicate only when the criterion is not \<open>Tous\<close>
  and the profile's gender is known, not empty, and differs. With 18, 35 and \<open>Tous\<close> a
  profile of unknown age and gender \<open>Homme\<close> matches; with 18, 35 and \<open>Femme\<close> a profile
  of age 40 and unknown gender does not.
\<close>

theorem targeting_permissive:
  fixes bp :: BotProfile and p :: UserProfile
  defines "lo \<equiv> dict_get (age_min (target_criteria bp)) 18"
    and "hi \<equiv> dict_get (age_max (target_criteria bp)) 99"
    and "tg \<equiv> dict_get (criteria_gender (target_criteria bp)) ''Tous''"
  shows
  "(age p = None \<or> age p = Some 0 \<longrightarrow>
      matches_targeting_criteria bp p =
        (tg = ''Tous'' \<or> gender p = None \<or> gender p = Some [] \<or> gender p = Some tg))
   \<and> (\<forall>a. age p = Some a \<and> lo \<le> a \<and> a \<le> hi \<longrightarrow>
      matches_targeting_criteria bp p =
        (tg = ''Tous'' \<or> gender p = None \<or> gender p = Some [] \<or> gender p = Some tg))
   \<and> (\<forall>a. age p = Some a \<and> a \<noteq> 0 \<and> \<not> (lo \<le> a \<and> a \<le> hi) \<longrightarrow>
      \<not> matches_targeting_criteria bp p)
   \<and> matches_targeting_criteria (example_bot 18 35 ''Tous'')
        ((new_UserProfile ''bob'')\<lparr>gender := Some ''Homme''\<rparr>)
   \<and> \<not> matches_targeting_criteria (example_bot 18 35 ''Femme'')
        ((new_UserProfile ''bob'')\<lparr>age := Some 40\<rparr>)"
proof (intro conjI allI impI)
  assume "age p = None \<or> age p = Some 0"
  then show "matches_targeting_criteria bp p =
        (tg = ''Tous'' \<or> gender p = None \<or> gender p = Some [] \<or> gender p = Some tg)"
    unfolding lo_def hi_def tg_def
    by (cases "gender p") (auto simp: matches_targeting_criteria_def Let_def truthy_int_def truthy_str_def)
next
  fix a assume "age p = Some a \<and> lo \<le> a \<and> a \<le> hi"
  then show "matches_targeting_criteria bp p =
        (tg = ''Tous'' \<or> gender p = None \<or> gender p = Some [] \<or> gender p = Some tg)"
    unfolding lo_def hi_def tg_def
    by (cases "gender p") (auto simp: matches_targeting_criteria_def Let_def truthy_int_def truthy_str_def)
next
  fix a assume "age p = Some a \<and> a \<noteq> 0 \<and> \<not> (lo \<le> a \<and> a \<le> hi)"
  then show "\<not> matches_targeting_criteria bp p"
    unfolding lo_def hi_def tg_def
    by (auto simp: matches_targeting_criteria_def Let_def truthy_int_def)
next
  show "matches_targeting_criteria (example_bot 18 35 ''Tous'')
        ((new_UserProfile ''bob'')\<lparr>gender := Some ''Homme''\<rparr>)"
    by (simp add: matches_targeting_criteria_def example_bot_def new_UserProfile_def dict_get_def
      truthy_int_def truthy_str_def)
  show "\<not> matches_targeting_criteria (example_bot 18 35 ''Femme'')
        ((new_UserProfile ''bob'')\<lparr>age := Some 40\<rparr>)"
    by (simp add: matches_targeting_criteria_def example_bot_def new_UserProfile_def dict_get_def
      truthy_int_def truthy_str_def)
qed

theorem targeting_permissive_witness:
  "age ((new_UserProfile ''zoe'')\<lparr>age := Some 36\<rparr>) = Some 36
   \<and> \<not> matches_targeting_criteria (example_bot 18 35 ''Tous'') ((new_UserProfile ''zoe'')\<lparr>age := Some 36\<rparr>)
   \<and> matches_targeting_criteria (example_bot 18 35 ''Tous'') ((new_UserProfile ''zoe'')\<lparr>age := Some 35\<rparr>)
   \<and> matches_targeting_criteria (example_bot 18 35 ''Femme'') (new_UserProfile ''zoe'')"
  using targeting_permissive [of "(new_UserProfile ''zoe'')\<lparr>age := Some 36\<rparr>" "example_bot 18 35 ''Tous''"]
    targeting_permissive [of "(new_UserProfile ''zoe'')\<lparr>age := Some 35\<rparr>" "example_bot 18 35 ''Tous''"]
    targeting_permissive [of "new_UserProfile ''zoe''" "example_bot 18 35 ''Femme''"]
  by (simp add: example_bot_def new_UserProfile_def dict_get_def)

section \<open>The merge of stored and derived attributes\<close>

lemma bob25_year:
  "List.find (\<lambda>year. str_contains (str_int year) ''bob25'') (py_range 1980 2010) = None"
  by (simp add: str_eval py_range_def)

lemma bob25_age:
  "List.find (\<lambda>i. str_contains (str_int i) ''bob25'') (py_range 18 100) = Some 25"
  by (simp add: str_eval py_range_def)

lemma bob25_info_age: "info_age (analyze_username cy ''bob25'') = Some 25"
  unfolding info_age_unfold bob25_year bob25_age by simp

lemma merged_age:
  "age (merged_profile e u s) =
     (if truthy_int (age (get_user_profile (sqlite_read_ok e) (db s) u))
      then age (get_user_profile (sqlite_read_ok e) (db s) u)
      else if truthy_int (info_age (analyze_username (current_year e) u))
      then info_age (analyze_username (current_year e) u)
      else age (get_user_profile (sqlite_read_ok e) (db s) u))"
  unfolding merged_profile_def Let_def by simp

lemma merged_gender:
  "gender (merged_profile e u s) =
     (if truthy_str (gender (get_user_profile (sqlite_read_ok e) (db s) u))
      then gender (get_user_profile (sqlite_read_ok e) (db s) u)
      else if truthy_str (info_gender (analyze_username (current_year e) u))
      then info_gender (analyze_username (current_year e) u)
      else gender (get_user_profile (sqlite_read_ok e) (db s) u))"
  unfolding merged_profile_def Let_def by simp

lemma merged_city:
  "city (merged_profile e u s) =
     (if truthy_str (city (get_user_profile (sqlite_read_ok e) (db s) u))
      then city (get_user_profile (sqlite_read_ok e) (db s) u)
      else if truthy_str (info_city (analyze_username (current_year e) u))
      then info_city (analyze_username (current_year e) u)
      else city (get_user_profile (sqlite_read_ok e) (db s) u))"
  unfolding merged_profile_def Let_def by simp

lemma merged_count:
  "conversation_count (merged_profile e u s) =
     conversation_count (get_user_profile (sqlite_read_ok e) (db s) u)"
  unfolding merged_profile_def Let_def by simp

lemma merged_username:
  "username (merged_profile e u s) = username (get_user_profile (sqlite_read_ok e) (db s) u)"
  unfolding merged_profile_def Let_def by simp

lemma get_user_profile_found:
  "List.find (\<lambda>r. col_username r = u) (users d) = Some row \<Longrightarrow>
     age (get_user_profile True d u) = col_age row
     \<and> gender (get_user_profile True d u) = col_gender row
     \<and> city (get_user_profile True d u) = col_city row
     \<and> conversation_count (get_user_profile True d u) = col_conversation_count row
     \<and> username (get_user_profile True d u) = u"
  by (auto simp: get_user_profile_def dest: find_Some_D)

lemma analyze_user_queue:
  "\<exists>rest. write_queue (db (analyze_user e u s)) =
     write_queue (db s) @ Save_user (user_data (now e) (merged_profile e u s)) # rest"
  by (simp add: analyze_user_def Let_def initiate_conversation_def save_user_profile_def queue_put_def)

lemma merged_targeted:
  "targeted (merged_profile e u s) = matches_targeting_criteria (bot_profile s) (merged_profile e u s)"
  unfolding merged_profile_def Let_def matches_targeting_criteria_def by simp

lemmas example_defs = new_IRCBotAdvanced_def new_DatabaseManager_def example_row_def
  example_env_def example_bot_def

section \<open>The write serializer\<close>

lemma execute_write_queue_commute:
  "(execute_write_operation ok intent d)\<lparr>write_queue := q\<rparr> =
     execute_write_operation ok intent (d\<lparr>write_queue := q\<rparr>)"
  by (cases intent) (simp_all add: execute_write_operation_def)

lemma write_queue_execute [simp]:
  "write_queue (execute_write_operation ok intent d) = write_queue d"
  by (cases intent) (simp_all add: execute_write_operation_def)

lemma write_queue_replay [simp]:
  "write_queue (sequential_replay intents d) = write_queue d"
  by (induction intents arbitrary: d) (simp_all add: sequential_replay_def)

lemma replay_Nil [simp]: "sequential_replay [] d = d"
  by (simp add: sequential_replay_def)

lemma replay_Cons [simp]:
  "sequential_replay (intent # intents) d =
     sequential_replay intents (execute_write_operation True intent d)"
  by (simp add: sequential_replay_def)

lemma replay_append:
  "sequential_replay (xs @ ys) d = sequential_replay ys (sequential_replay xs d)"
  by (simp add: sequential_replay_def)

lemma flushed_put:
  "flushed (queue_put intent d) = execute_write_operation True intent (flushed d)"
  by (simp add: flushed_def queue_put_def replay_append)

lemma flushed_writer_turn:
  "flushed (database_writer_iteration True d) = flushed d"
  by (cases "write_queue d")
    (simp_all add: flushed_def database_writer_iteration_def execute_write_queue_commute)

lemma replay_flushed:
  "sequential_replay intents (flushed d) =
     sequential_replay (write_queue d @ intents) (d\<lparr>write_queue := []\<rparr>)"
  by (simp add: flushed_def replay_append)

lemma flushed_run:
  "\<forall>ev \<in> set evs. ev \<noteq> Writer_turn False \<Longrightarrow>
     flushed (db_run evs d) = sequential_replay (submitted evs) (flushed d)"
proof (induction evs arbitrary: d)
  case Nil
  then show ?case by simp
next
  case (Cons ev evs)
  show ?case
  proof (cases ev)
    case (Submit intent)
    with Cons show ?thesis by (simp add: flushed_put)
  next
    case (Writer_turn ok)
    with Cons.prems have "ok" by auto
    with Cons Writer_turn show ?thesis by (simp add: flushed_writer_turn)
  qed
qed

lemma writer_drains:
  "length (write_queue d) \<le> length oks \<Longrightarrow> \<forall>ok \<in> set oks. ok \<Longrightarrow>
     database_writer oks d = flushed d"
proof (induction oks arbitrary: d)
  case Nil
  then show ?case by (simp add: flushed_def)
next
  case (Cons ok oks)
  then have ok: "ok" by simp
  have "length (write_queue (database_writer_iteration True d)) \<le> length oks"
    using Cons.prems(1) by (cases "write_queue d") (simp_all add: database_writer_iteration_def)
  with Cons ok show ?case by (simp add: flushed_writer_turn)
qed

text \<open>
  C3. One writer takes the intents from the head of the queue, and every \<open>put\<close> adds at
  its tail. Whatever the interleaving of the callers' \<open>put\<close>s with the turns of the
  writer, once the writer has had as many turns as intents were left, the tables are
  those that applying the intents one by one, in the order of their submission, gives,
  and the queue is empty. \<open>sqlite3\<close> is taken to work in every turn: a turn in which it
  raises logs the error and drops that intent.
\<close>

theorem serializer_fifo:
  assumes "\<forall>ev \<in> set evs. ev \<noteq> Writer_turn False"
    and "length (write_queue (db_run evs d)) \<le> length oks"
    and "\<forall>ok \<in> set oks. ok"
  shows "database_writer oks (db_run evs d) =
           sequential_replay (write_queue d @ submitted evs) (d\<lparr>write_queue := []\<rparr>)"
  using writer_drains[OF assms(2,3)] flushed_run[OF assms(1), of d]
  by (simp add: replay_flushed)

theorem serializer_fifo_witness:
  "Writer_turn False \<notin> set example_events
   \<and> write_queue (db_run example_events new_DatabaseManager)
        = [Save_user (example_row ''bob25'' (Some 40))]
   \<and> users (database_writer [True] (db_run example_events new_DatabaseManager))
        = [example_row ''zoe'' None, example_row ''bob25'' (Some 40)]
   \<and> write_queue (database_writer [True] (db_run example_events new_DatabaseManager)) = []"
proof -
  have h1: "\<forall>ev \<in> set example_events. ev \<noteq> Writer_turn False"
    by (simp add: example_events_def)
  have q: "write_queue (db_run example_events new_DatabaseManager)
        = [Save_user (example_row ''bob25'' (Some 40))]"
    by (simp add: example_events_def new_DatabaseManager_def queue_put_def
        database_writer_iteration_def execute_write_operation_def)
  have h2: "length (write_queue (db_run example_events new_DatabaseManager)) \<le> length [True]"
    by (simp add: q)
  have h3: "\<forall>ok \<in> set [True]. ok" by simp
  have "users (database_writer [True] (db_run example_events new_DatabaseManager))
        = [example_row ''zoe'' None, example_row ''bob25'' (Some 40)]
      \<and> write_queue (database_writer [True] (db_run example_events new_DatabaseManager)) = []"
    unfolding serializer_fifo[OF h1 h2 h3]
    by (simp add: example_events_def new_DatabaseManager_def execute_write_operation_def
        example_row_def)
  moreover have "Writer_turn False \<notin> set example_events"
    by (simp add: example_events_def)
  ultimately show ?thesis using q by blast
qed

lemma find_after_replace:
  "P x \<Longrightarrow> List.find P (filter (\<lambda>r. \<not> P r) xs @ [x]) = Some x"
  by (induction xs) auto

lemma users_execute_save_user:
  "List.find (\<lambda>r. col_username r = col_username data)
     (users (execute_write_operation True (Save_user data) d)) = Some data"
  using find_after_replace[of "\<lambda>r. col_username r = col_username data" data "users d"]
  by (simp add: execute_write_operation_def)

lemma conversations_execute_save_conversation:
  "last (conversations (execute_write_operation True (Save_conversation data) d)) = data"
  by (simp add: execute_write_operation_def)

lemma run_submits:
  "write_queue (db_run (map Submit intents) d) = write_queue d @ intents"
  by (induction intents arbitrary: d) (simp_all add: queue_put_def)

lemma writer_iteration_put:
  "write_queue d \<noteq> [] \<Longrightarrow>
     database_writer_iteration ok (queue_put intent d) = queue_put intent (database_writer_iteration ok d)"
  by (cases "write_queue d"; cases "hd (write_queue d)")
    (auto simp: database_writer_iteration_def queue_put_def execute_write_operation_def)

lemma writer_iteration_length:
  "length (write_queue (database_writer_iteration ok d)) = length (write_queue d) - 1"
  by (cases "write_queue d") (simp_all add: database_writer_iteration_def)

lemma writer_reaches:
  "length oks = length (write_queue d) \<Longrightarrow>
     database_writer (oks @ [ok]) (queue_put intent d) =
       execute_write_operation ok intent (database_writer oks d)"
proof (induction oks arbitrary: d)
  case Nil
  then have e: "d\<lparr>write_queue := []\<rparr> = d" by (cases d) simp
  from Nil show ?case
    by (simp add: database_writer_iteration_def queue_put_def e)
next
  case (Cons o1 oks)
  then have ne: "write_queue d \<noteq> []" by auto
  have "length oks = length (write_queue (database_writer_iteration o1 d))"
    using Cons.prems by (simp add: writer_iteration_length)
  from Cons.IH[OF this] show ?case
    by (simp add: writer_iteration_put[OF ne])
qed

text \<open>
  C8, as the claim states it, fails: an intent can be lost with nothing surfaced to the
  caller. The submission returns with the intent queued; in the writer's turn \<open>sqlite3\<close>
  raises, the handler logs the error, and the intent is gone from the queue and absent
  from the table.
\<close>

theorem lost_intent_counterexample:
  "save_user_profile ''2026-11-03T10:00:00'' (new_UserProfile ''zoe'') new_DatabaseManager =
     new_DatabaseManager\<lparr>write_queue :=
       [Save_user (user_data ''2026-11-03T10:00:00'' (new_UserProfile ''zoe''))]\<rparr>
   \<and> database_writer [False]
        (save_user_profile ''2026-11-03T10:00:00'' (new_UserProfile ''zoe'') new_DatabaseManager)
       = new_DatabaseManager"
  by (simp add: save_user_profile_def queue_put_def new_DatabaseManager_def
      database_writer_iteration_def execute_write_operation_def)

text \<open>
  C8, amended. \<open>write_queue\<close> has no bound, so there is no saturated case: in every
  state of the queue \<open>save_user_profile\<close> and \<open>save_conversation\<close> return with their
  intent added at the tail and nothing else changed, and any number of submissions in a
  row are all queued. A submission does not fail and gives the caller nothing that could
  signal a failure. What becomes of the intent is decided in the writer's turn for it,
  which comes after the turns for the intents queued before it: when \<open>sqlite3\<close> works
  in that turn the row is written, and when it raises the intent is dropped and the
  store is as if it had never been submitted.
\<close>

theorem submit_never_fails:
  assumes "length oks = length (write_queue d)"
  shows "save_user_profile t p d = d\<lparr>write_queue := write_queue d @ [Save_user (user_data t p)]\<rparr>
   \<and> save_conversation t u m r d =
        d\<lparr>write_queue := write_queue d @ [Save_conversation (conversation_data t u m r)]\<rparr>
   \<and> write_queue (db_run (map Submit intents) d) = write_queue d @ intents
   \<and> database_writer (oks @ [True]) (save_user_profile t p d) =
        execute_write_operation True (Save_user (user_data t p)) (database_writer oks d)
   \<and> List.find (\<lambda>row. col_username row = username p)
        (users (database_writer (oks @ [True]) (save_user_profile t p d))) = Some (user_data t p)
   \<and> database_writer (oks @ [False]) (save_user_profile t p d) = database_writer oks d
   \<and> database_writer (oks @ [True]) (save_conversation t u m r d) =
        execute_write_operation True (Save_conversation (conversation_data t u m r))
          (database_writer oks d)
   \<and> last (conversations (database_writer (oks @ [True]) (save_conversation t u m r d))) =
        conversation_data t u m r
   \<and> database_writer (oks @ [False]) (save_conversation t u m r d) = database_writer oks d"
proof -
  note reach = writer_reaches[OF assms]
  have name: "col_username (user_data t p) = username p"
    by (simp add: user_data_def)
  have c1: "save_user_profile t p d = d\<lparr>write_queue := write_queue d @ [Save_user (user_data t p)]\<rparr>"
    by (simp add: save_user_profile_def queue_put_def)
  have c2: "save_conversation t u m r d =
        d\<lparr>write_queue := write_queue d @ [Save_conversation (conversation_data t u m r)]\<rparr>"
    by (simp add: save_conversation_def queue_put_def)
  have c3: "write_queue (db_run (map Submit intents) d) = write_queue d @ intents"
    by (rule run_submits)
  have c4: "database_writer (oks @ [True]) (save_user_profile t p d) =
        execute_write_operation True (Save_user (user_data t p)) (database_writer oks d)"
    unfolding save_user_profile_def by (rule reach)
  have c5: "List.find (\<lambda>row. col_username row = username p)
        (users (database_writer (oks @ [True]) (save_user_profile t p d))) = Some (user_data t p)"
    unfolding c4 name[symmetric] by (rule users_execute_save_user)
  have c6: "database_writer (oks @ [False]) (save_user_profile t p d) = database_writer oks d"
    unfolding save_user_profile_def reach by (simp add: execute_write_operation_def)
  have c7: "database_writer (oks @ [True]) (save_conversation t u m r d) =
        execute_write_operation True (Save_conversation (conversation_data t u m r))
          (database_writer oks d)"
    unfolding save_conversation_def by (rule reach)
  have c8: "last (conversations (database_writer (oks @ [True]) (save_conversation t u m r d))) =
        conversation_data t u m r"
    unfolding c7 by (rule conversations_execute_save_conversation)
  have c9: "database_writer (oks @ [False]) (save_conversation t u m r d) = database_writer oks d"
    unfolding save_conversation_def reach by (simp add: execute_write_operation_def)
  from c1 c2 c3 c4 c5 c6 c7 c8 c9 show ?thesis by blast
qed

theorem submit_never_fails_witness:
  "length [False] =
     length (write_queue (new_DatabaseManager\<lparr>write_queue := [Save_user (example_row ''bob25'' (Some 25))]\<rparr>))
   \<and> users (database_writer [False, True]
        (save_user_profile ''2026-11-03T10:00:00'' (new_UserProfile ''zoe'')
          (new_DatabaseManager\<lparr>write_queue := [Save_user (example_row ''bob25'' (Some 25))]\<rparr>)))
       = [user_data ''2026-11-03T10:00:00'' (new_UserProfile ''zoe'')]
   \<and> users (database_writer [False, False]
        (save_user_profile ''2026-11-03T10:00:00'' (new_UserProfile ''zoe'')
          (new_DatabaseManager\<lparr>write_queue := [Save_user (example_row ''bob25'' (Some 25))]\<rparr>)))
       = []"
proof -
  let ?d = "new_DatabaseManager\<lparr>write_queue := [Save_user (example_row ''bob25'' (Some 25))]\<rparr>"
  have h: "length [False] = length (write_queue ?d)" by simp
  have w: "database_writer [False] ?d = new_DatabaseManager"
    by (simp add: database_writer_iteration_def execute_write_operation_def new_DatabaseManager_def)
  from submit_never_fails[where t = "''2026-11-03T10:00:00''" and p = "new_UserProfile ''zoe''"
      and u = "[]" and m = "[]" and r = "[]" and intents = "[]", OF h]
  have "database_writer ([False] @ [True])
          (save_user_profile ''2026-11-03T10:00:00'' (new_UserProfile ''zoe'') ?d) =
        execute_write_operation True
          (Save_user (user_data ''2026-11-03T10:00:00'' (new_UserProfile ''zoe'')))
          (database_writer [False] ?d)"
    and "database_writer ([False] @ [False])
          (save_user_profile ''2026-11-03T10:00:00'' (new_UserProfile ''zoe'') ?d) =
        database_writer [False] ?d"
    by blast+
  then show ?thesis
    unfolding w by (simp add: execute_write_operation_def new_DatabaseManager_def)
qed

section \<open>The response path\<close>

lemmas text_defs = text_no_api_key_def text_unauthorized_def text_rate_limited_def
  text_api_error_def text_timeout_def text_connection_error_def get_fallback_response_def
  emoji_warning_def emoji_cross_def emoji_hourglass_def emoji_clock_def emoji_globe_def

lemma response_nonempty: "generate_response k_set r k bp \<noteq> [] \<or> (\<exists>text. r = Http_response 200 (Some text))"
  by (cases r) (auto simp: generate_response_def text_defs split: option.splits)

lemma on_privmsg_sends:
  assumes "is_connected e" and "privmsg_ok e" and "nick \<noteq> nickname (bot_profile s)"
    and "generate_response (api_key_set e) (api e) (choice e) (bot_profile s) \<noteq> []"
  shows "privmsgs (on_privmsg e nick message s) =
     privmsgs s @ [(nick, generate_response (api_key_set e) (api e) (choice e) (bot_profile s))]"
  using assms by (simp add: on_privmsg_def generate_intelligent_response_def Let_def)

text \<open>
  C7, as the claim states it, fails: when the request times out, the line sent to the
  user is the text of the error, \<open>Timeout de l'API\<close>, and that is none of the fallback
  lines.
\<close>

theorem error_text_sent_counterexample:
  "api example_env = Timeout
   \<and> privmsgs (on_privmsg example_env ''bob'' ''salut'' example_state) = [(''bob'', text_timeout)]
   \<and> text_timeout \<notin> set (map (\<lambda>k. get_fallback_response k (bot_profile example_state)) [0, 1, 2, 3, 4])"
  by (simp add: on_privmsg_def generate_intelligent_response_def Let_def generate_response_def
      example_env_def example_state_def new_IRCBotAdvanced_def example_bot_def text_timeout_def
      emoji_clock_def get_fallback_response_def random_choice_def fallback_responses_def)

text \<open>
  C7, amended. With the connection up, for a message of another handle, every failure of
  the request ends in one line produced locally and sent to the sender; no failure is
  raised. For an unauthorized request (401), a rate limit (429), any other status but
  200, a timeout and a connection failure the line is the fixed text that names that
  failure; for any other exception, and for a 200 response whose body lacks the text, it
  is the fallback line drawn by \<open>_get_fallback_response\<close>.
\<close>

theorem failure_lines:
  assumes "is_connected e" and "privmsg_ok e" and "nick \<noteq> nickname (bot_profile s)"
    and "api_key_set e"
  shows "(\<forall>body. api e = Http_response 401 body \<longrightarrow>
            privmsgs (on_privmsg e nick message s) = privmsgs s @ [(nick, text_unauthorized)])
       \<and> (\<forall>body. api e = Http_response 429 body \<longrightarrow>
            privmsgs (on_privmsg e nick message s) = privmsgs s @ [(nick, text_rate_limited)])
       \<and> (\<forall>code body. api e = Http_response code body \<and> code \<noteq> 200 \<and> code \<noteq> 401 \<and> code \<noteq> 429 \<longrightarrow>
            privmsgs (on_privmsg e nick message s) = privmsgs s @ [(nick, text_api_error code)])
       \<and> (api e = Timeout \<longrightarrow>
            privmsgs (on_privmsg e nick message s) = privmsgs s @ [(nick, text_timeout)])
       \<and> (api e = ConnectionError \<longrightarrow>
            privmsgs (on_privmsg e nick message s) = privmsgs s @ [(nick, text_connection_error)])
       \<and> (api e = Other_exception \<or> api e = Http_response 200 None \<longrightarrow>
            privmsgs (on_privmsg e nick message s) =
              privmsgs s @ [(nick, get_fallback_response (choice e) (bot_profile s))])"
proof -
  note sends = on_privmsg_sends[OF assms(1-3)]
  have ne: "generate_response (api_key_set e) (api e) (choice e) (bot_profile s) \<noteq> []"
    if "\<forall>text. api e \<noteq> Http_response 200 (Some text)"
    using response_nonempty[of "api_key_set e" "api e" "choice e" "bot_profile s"] that by blast
  show ?thesis
  proof (intro conjI allI impI)
    fix body assume a: "api e = Http_response 401 body"
    then have "\<forall>text. api e \<noteq> Http_response 200 (Some text)" by simp
    from sends[OF ne[OF this]] a assms(4)
    show "privmsgs (on_privmsg e nick message s) = privmsgs s @ [(nick, text_unauthorized)]"
      by (simp add: generate_response_def)
  next
    fix body assume a: "api e = Http_response 429 body"
    then have "\<forall>text. api e \<noteq> Http_response 200 (Some text)" by simp
    from sends[OF ne[OF this]] a assms(4)
    show "privmsgs (on_privmsg e nick message s) = privmsgs s @ [(nick, text_rate_limited)]"
      by (simp add: generate_response_def)
  next
    fix code body
    assume a: "api e = Http_response code body \<and> code \<noteq> 200 \<and> code \<noteq> 401 \<and> code \<noteq> 429"
    then have "\<forall>text. api e \<noteq> Http_response 200 (Some text)" by simp
    from sends[OF ne[OF this]] a assms(4)
    show "privmsgs (on_privmsg e nick message s) = privmsgs s @ [(nick, text_api_error code)]"
      by (simp add: generate_response_def)
  next
    assume a: "api e = Timeout"
    then have "\<forall>text. api e \<noteq> Http_response 200 (Some text)" by simp
    from sends[OF ne[OF this]] a assms(4)
    show "privmsgs (on_privmsg e nick message s) = privmsgs s @ [(nick, text_timeout)]"
      by (simp add: generate_response_def)
  next
    assume a: "api e = ConnectionError"
    then have "\<forall>text. api e \<noteq> Http_response 200 (Some text)" by simp
    from sends[OF ne[OF this]] a assms(4)
    show "privmsgs (on_privmsg e nick message s) = privmsgs s @ [(nick, text_connection_error)]"
      by (simp add: generate_response_def)
  next
    assume a: "api e = Other_exception \<or> api e = Http_response 200 None"
    then have "\<forall>text. api e \<noteq> Http_response 200 (Some text)" by auto
    from sends[OF ne[OF this]] a assms(4)
    show "privmsgs (on_privmsg e nick message s) =
              privmsgs s @ [(nick, get_fallback_response (choice e) (bot_profile s))]"
      by (auto simp: generate_response_def)
  qed
qed

theorem failure_lines_witness:
  "is_connected example_env \<and> privmsg_ok example_env \<and> api_key_set example_env
   \<and> ''bob'' \<noteq> nickname (bot_profile example_state)
   \<and> api (example_env\<lparr>api := Http_response 401 None\<rparr>) = Http_response 401 None
   \<and> privmsgs (on_privmsg (example_env\<lparr>api := Http_response 401 None\<rparr>) ''bob'' ''salut'' example_state)
       = [(''bob'', text_unauthorized)]
   \<and> privmsgs (on_privmsg (example_env\<lparr>api := Other_exception\<rparr>) ''bob'' ''salut'' example_state)
       = [(''bob'', get_fallback_response 0 (example_bot 18 35 ''Tous''))]"
  using failure_lines[of "example_env\<lparr>api := Http_response 401 None\<rparr>" "''bob''" example_state "''salut''"]
    failure_lines[of "example_env\<lparr>api := Other_exception\<rparr>" "''bob''" example_state "''salut''"]
  by (simp add: example_env_def example_state_def new_IRCBotAdvanced_def example_bot_def)

section \<open>The analysis pipeline\<close>

lemma initiate_conversation_pipeline [simp]:
  "analysis_queue (initiate_conversation e u p s) = analysis_queue s"
  "users_being_analyzed (initiate_conversation e u p s) = users_being_analyzed s"
  by (simp_all add: initiate_conversation_def Let_def)

lemma analyze_user_pipeline [simp]:
  "analysis_queue (analyze_user e u s) = analysis_queue s"
  "users_being_analyzed (analyze_user e u s) = users_being_analyzed s - {u}"
  by (simp_all add: analyze_user_def Let_def)

lemma on_pubmsg_pipeline [simp]:
  "analysis_queue (on_pubmsg e nick message s) = analysis_queue s"
  "users_being_analyzed (on_pubmsg e nick message s) = users_being_analyzed s"
  by (simp_all add: on_pubmsg_def Let_def)

lemma on_privmsg_pipeline [simp]:
  "analysis_queue (on_privmsg e nick message s) = analysis_queue s"
  "users_being_analyzed (on_privmsg e nick message s) = users_being_analyzed s"
  by (simp_all add: on_privmsg_def generate_intelligent_response_def Let_def)

lemma on_join_inv:
  "pipeline_inv s held \<Longrightarrow> pipeline_inv (on_join nick s) held"
  by (auto simp: pipeline_inv_def on_join_def enqueue_analysis_def Let_def)

lemma namreply_loop_inv:
  "pipeline_inv s held \<Longrightarrow> pipeline_inv (namreply_loop names s) held"
proof (induction names arbitrary: s)
  case Nil
  then show ?case by simp
next
  case (Cons name names)
  let ?c = "lstrip ''@+%&~'' name"
  let ?s1 = "s\<lparr>users_being_analyzed := insert ?c (users_being_analyzed s)\<rparr>"
  show ?case
  proof (cases "?c \<noteq> nickname (bot_profile s) \<and> ?c \<notin> users_being_analyzed s")
    case False
    with Cons show ?thesis by (auto simp: Let_def)
  next
    case True
    note fresh = this
    have inv1: "pipeline_inv ?s1 held"
      using Cons.prems by (auto simp: pipeline_inv_def)
    show ?thesis
    proof (cases "enqueue_analysis ?c ?s1")
      case None
      with fresh inv1 show ?thesis by (simp add: Let_def)
    next
      case (Some s2)
      then have s2: "s2 = ?s1\<lparr>analysis_queue := analysis_queue ?s1 @ [?c]\<rparr>"
        by (auto simp: enqueue_analysis_def split: if_splits)
      have "pipeline_inv s2 held"
        using Cons.prems fresh unfolding s2 by (auto simp: pipeline_inv_def)
      from Cons.IH[OF this] fresh Some show ?thesis by (simp add: Let_def)
    qed
  qed
qed

lemma on_namreply_inv:
  "pipeline_inv s held \<Longrightarrow> pipeline_inv (on_namreply arguments s) held"
  using namreply_loop_inv[of s held]
  by (auto simp: on_namreply_def Let_def pipeline_inv_def)

lemma step_inv:
  assumes "step c c'" and "pipeline_inv (fst c) (case snd c of None \<Rightarrow> [] | Some u \<Rightarrow> [u])"
  shows "pipeline_inv (fst c') (case snd c' of None \<Rightarrow> [] | Some u \<Rightarrow> [u])"
  using assms
proof (induction rule: step.induct)
  case (join s w nick)
  then show ?case by (simp add: on_join_inv)
next
  case (namreply s w arguments)
  then show ?case by (simp add: on_namreply_inv)
next
  case (pubmsg s w e nick message)
  then show ?case by (simp add: pipeline_inv_def)
next
  case (privmsg s w e nick message)
  then show ?case by (simp add: pipeline_inv_def)
next
  case (writer s w sqlite_ok)
  then show ?case by (simp add: pipeline_inv_def)
next
  case (worker_get s u rest)
  then show ?case by (auto simp: pipeline_inv_def)
next
  case (worker_analyze s u e)
  then show ?case by (auto simp: pipeline_inv_def)
qed

lemma reachable_inv:
  "reachable c \<Longrightarrow> pipeline_inv (fst c) (case snd c of None \<Rightarrow> [] | Some u \<Rightarrow> [u])"
proof (induction rule: reachable.induct)
  case (init bp d)
  then show ?case by (simp add: pipeline_inv_def new_IRCBotAdvanced_def)
next
  case (after c c')
  then show ?case using step_inv by blast
qed

lemma distinct_count_list: "distinct xs \<Longrightarrow> count_list xs h \<le> 1"
  by (induction xs) (auto simp: count_list_0_iff)

text \<open>
  C2. In every configuration that the handlers and the worker can reach, in any
  interleaving, no handle has more than one analysis task, queued or held by the worker,
  and every handle that has a task is in \<open>users_being_analyzed\<close>; a join of a handle
  that is in flight changes nothing. A handler tests the set, adds the handle and puts
  the task without another handler in between, the handlers running one at a time; the
  worker only ever removes a handle, and only the one whose task it has finished.
\<close>

theorem no_duplicate_dispatch:
  assumes "reachable c"
  shows "distinct (tasks c)
       \<and> set (tasks c) \<subseteq> users_being_analyzed (fst c)
       \<and> (\<forall>h. count_list (tasks c) h \<le> 1)
       \<and> (\<forall>h \<in> users_being_analyzed (fst c). on_join h (fst c) = fst c)"
proof -
  from reachable_inv[OF assms] have d: "distinct (tasks c)"
    and sub: "set (tasks c) \<subseteq> users_being_analyzed (fst c)"
    by (simp_all add: pipeline_inv_def tasks_def)
  have "count_list (tasks c) h \<le> 1" for h
    using d by (rule distinct_count_list)
  moreover have "on_join h (fst c) = fst c" if "h \<in> users_being_analyzed (fst c)" for h
    using that by (simp add: on_join_def)
  ultimately show ?thesis using d sub by blast
qed

lemmas split_eval = is_space_def lstrip_def

theorem no_duplicate_dispatch_witness:
  "reachable (on_namreply [''='', ''#accueil'', ''@bob +zoe Lea42 bob'']
                (on_join ''bob'' (on_join ''bob'' example_state)), None)
   \<and> tasks (on_namreply [''='', ''#accueil'', ''@bob +zoe Lea42 bob'']
                (on_join ''bob'' (on_join ''bob'' example_state)), None) = [''bob'', ''zoe'']
   \<and> users_being_analyzed (on_namreply [''='', ''#accueil'', ''@bob +zoe Lea42 bob'']
                (on_join ''bob'' (on_join ''bob'' example_state))) = {''bob'', ''zoe''}
   \<and> count_list (tasks (on_namreply [''='', ''#accueil'', ''@bob +zoe Lea42 bob'']
                (on_join ''bob'' (on_join ''bob'' example_state)), None)) ''bob'' \<le> 1"
proof -
  let ?c = "(on_namreply [''='', ''#accueil'', ''@bob +zoe Lea42 bob'']
                (on_join ''bob'' (on_join ''bob'' example_state)), None :: string option)"
  have "reachable (example_state, None)"
    unfolding example_state_def by (rule reachable.init)
  then have "reachable (on_join ''bob'' example_state, None)"
    by (rule reachable.after) (rule step.join)
  then have "reachable (on_join ''bob'' (on_join ''bob'' example_state), None)"
    by (rule reachable.after) (rule step.join)
  then have r: "reachable ?c"
    by (rule reachable.after) (rule step.namreply)
  have t: "tasks ?c = [''bob'', ''zoe'']"
    by (simp add: tasks_def on_namreply_def on_join_def enqueue_analysis_def Let_def split_eval
        example_state_def new_IRCBotAdvanced_def example_bot_def analysis_queue_maxsize_def)
  have u: "users_being_analyzed (fst ?c) = {''bob'', ''zoe''}"
    by (simp add: on_namreply_def on_join_def enqueue_analysis_def Let_def split_eval
        example_state_def new_IRCBotAdvanced_def example_bot_def analysis_queue_maxsize_def)
      auto
  from no_duplicate_dispatch[OF r] r t u show ?thesis by simp
qed

lemma on_join_marked:
  "h \<in> users_being_analyzed s \<Longrightarrow> h \<notin> set (analysis_queue s) \<Longrightarrow>
     h \<in> users_being_analyzed (on_join nick s) \<and> h \<notin> set (analysis_queue (on_join nick s))"
  by (auto simp: on_join_def enqueue_analysis_def Let_def)

lemma namreply_loop_marked:
  "h \<in> users_being_analyzed s \<Longrightarrow> h \<notin> set (analysis_queue s) \<Longrightarrow>
     h \<in> users_being_analyzed (namreply_loop names s)
     \<and> h \<notin> set (analysis_queue (namreply_loop names s))"
proof (induction names arbitrary: s)
  case Nil
  then show ?case by simp
next
  case (Cons name names)
  let ?c = "lstrip ''@+%&~'' name"
  let ?s1 = "s\<lparr>users_being_analyzed := insert ?c (users_being_analyzed s)\<rparr>"
  show ?case
  proof (cases "?c \<noteq> nickname (bot_profile s) \<and> ?c \<notin> users_being_analyzed s")
    case False
    with Cons show ?thesis by (auto simp: Let_def)
  next
    case True
    note fresh = this
    then have neq: "?c \<noteq> h" using Cons.prems by auto
    show ?thesis
    proof (cases "enqueue_analysis ?c ?s1")
      case None
      with fresh Cons.prems show ?thesis by (simp add: Let_def)
    next
      case (Some s2)
      then have s2: "s2 = ?s1\<lparr>analysis_queue := analysis_queue ?s1 @ [?c]\<rparr>"
        by (auto simp: enqueue_analysis_def split: if_splits)
      have "h \<in> users_being_analyzed s2" "h \<notin> set (analysis_queue s2)"
        using Cons.prems neq unfolding s2 by auto
      from Cons.IH[OF this] fresh Some show ?thesis by (simp add: Let_def)
    qed
  qed
qed

lemma on_namreply_marked:
  "h \<in> users_being_analyzed s \<Longrightarrow> h \<notin> set (analysis_queue s) \<Longrightarrow>
     h \<in> users_being_analyzed (on_namreply arguments s)
     \<and> h \<notin> set (analysis_queue (on_namreply arguments s))"
  using namreply_loop_marked[of h s]
  by (auto simp: on_namreply_def Let_def)

lemma namreply_loop_full:
  assumes "analysis_queue_maxsize \<le> length (analysis_queue s)"
    and "lstrip ''@+%&~'' name \<noteq> nickname (bot_profile s)"
    and "lstrip ''@+%&~'' name \<notin> users_being_analyzed s"
  shows "namreply_loop (name # names) s =
     s\<lparr>users_being_analyzed := insert (lstrip ''@+%&~'' name) (users_being_analyzed s)\<rparr>"
  using assms by (simp add: enqueue_analysis_def Let_def)

lemma step_marked:
  assumes "step c c'" and "marked_without_task h c"
  shows "marked_without_task h c'"
  using assms
proof (induction rule: step.induct)
  case (join s w nick)
  then show ?case using on_join_marked[of h s nick]
    by (auto simp: marked_without_task_def tasks_def)
next
  case (namreply s w arguments)
  then show ?case using on_namreply_marked[of h s arguments]
    by (auto simp: marked_without_task_def tasks_def)
next
  case (pubmsg s w e nick message)
  then show ?case by (simp add: marked_without_task_def tasks_def)
next
  case (privmsg s w e nick message)
  then show ?case by (simp add: marked_without_task_def tasks_def)
next
  case (writer s w sqlite_ok)
  then show ?case by (simp add: marked_without_task_def tasks_def)
next
  case (worker_get s u rest)
  then show ?case by (auto simp: marked_without_task_def tasks_def)
next
  case (worker_analyze s u e)
  then show ?case by (auto simp: marked_without_task_def tasks_def)
qed

lemma steps_marked:
  "step\<^sup>*\<^sup>* c c' \<Longrightarrow> marked_without_task h c \<Longrightarrow> marked_without_task h c'"
  by (induction rule: rtranclp_induct) (auto intro: step_marked)

text \<open>
  C9. The worker does discard the handle at the end of \<open>_analyze_user\<close>, whatever
  happened before. But a handle observed while \<open>analysis_queue\<close> is full is added to
  \<open>users_being_analyzed\<close> before the \<open>put\<close> that raises \<open>queue.Full\<close>, and is not taken
  out again: it is marked in flight with no task, and stays so in every configuration
  that follows, since only the end of its own analysis would discard it and no later
  observation of it enqueues a task. The loop of \<open>on_namreply\<close> does the same before
  it breaks (\<open>namreply_loop_full\<close>). The witness is the fifty-first handle of a burst
  of joins.
\<close>

theorem in_flight_marker_leaks:
  assumes "analysis_queue_maxsize \<le> length (analysis_queue s)"
    and "h \<noteq> nickname (bot_profile s)"
    and "h \<notin> users_being_analyzed s"
    and "h \<notin> set (tasks (s, w))"
    and "step\<^sup>*\<^sup>* (on_join h s, w) c'"
  shows "h \<in> users_being_analyzed (fst c') \<and> h \<notin> set (tasks c')"
proof -
  have "on_join h s = s\<lparr>users_being_analyzed := insert h (users_being_analyzed s)\<rparr>"
    using assms(1-3) by (simp add: on_join_def enqueue_analysis_def Let_def)
  then have "marked_without_task h (on_join h s, w)"
    using assms(4) by (simp add: marked_without_task_def tasks_def)
  from steps_marked[OF assms(5) this] show ?thesis
    by (simp add: marked_without_task_def)
qed

lemma reachable_joins:
  "reachable (s, w) \<Longrightarrow> reachable (foldl (\<lambda>s nick. on_join nick s) s nicks, w)"
proof (induction nicks arbitrary: s)
  case Nil
  then show ?case by simp
next
  case (Cons nick nicks)
  have "reachable (on_join nick s, w)"
    using Cons.prems by (rule reachable.after) (rule step.join)
  from Cons.IH[OF this] show ?case by simp
qed

lemma less_ten_cases:
  "(d::nat) < 10 \<Longrightarrow>
     d = 0 \<or> d = 1 \<or> d = 2 \<or> d = 3 \<or> d = 4 \<or> d = 5 \<or> d = 6 \<or> d = 7 \<or> d = 8 \<or> d = 9"
  by arith

lemma digit_char_inj: "a < 10 \<Longrightarrow> b < 10 \<Longrightarrow> digit_char a = digit_char b \<Longrightarrow> a = b"
  by (drule less_ten_cases, drule less_ten_cases) (elim disjE; simp add: digit_char_def)

lemma str_nat_nonempty: "str_nat n \<noteq> []"
  by (subst str_nat.simps) simp

lemma str_nat_inj: "str_nat n = str_nat m \<Longrightarrow> n = m"
proof (induction n arbitrary: m rule: str_nat.induct)
  case (1 n)
  show ?case
  proof (cases "n < 10")
    case True
    note n = this
    show ?thesis
    proof (cases "m < 10")
      case True
      with n "1.prems" show ?thesis
        by (simp add: str_nat.simps[of n] str_nat.simps[of m] digit_char_inj)
    next
      case False
      with n "1.prems" str_nat_nonempty[of "m div 10"] show ?thesis
        by (simp add: str_nat.simps[of n] str_nat.simps[of m] Cons_eq_append_conv)
    qed
  next
    case False
    note n = this
    show ?thesis
    proof (cases "m < 10")
      case True
      with n "1.prems" str_nat_nonempty[of "n div 10"] show ?thesis
        by (simp add: str_nat.simps[of n] str_nat.simps[of m] append_eq_Cons_conv)
    next
      case False
      with n "1.prems" have eq: "str_nat (n div 10) = str_nat (m div 10)"
        and d: "digit_char (n mod 10) = digit_char (m mod 10)"
        by (simp_all add: str_nat.simps[of n] str_nat.simps[of m])
      from "1.IH"[OF n eq] have "n div 10 = m div 10" .
      moreover from d have "n mod 10 = m mod 10"
        by (intro digit_char_inj) simp_all
      ultimately show ?thesis
        by (metis div_mult_mod_eq)
    qed
  qed
qed

lemma crowd_distinct: "distinct crowd"
  unfolding crowd_def
proof (rule distinct_map[THEN iffD2], intro conjI)
  show "distinct [1..50::int]" by simp
  show "inj_on (\<lambda>i. ''user'' @ str_int i) (set [1..50])"
    by (rule inj_onI) (auto simp: str_int_def dest!: str_nat_inj)
qed

lemma crowd_length: "length crowd = 50"
  by (simp add: crowd_def)

lemma crowd_prefix: "nick \<in> set crowd \<Longrightarrow> prefix ''user'' nick"
  by (auto simp: crowd_def)

lemma joins_fill:
  "distinct nicks \<Longrightarrow> set nicks \<inter> users_being_analyzed s = {} \<Longrightarrow>
   nickname (bot_profile s) \<notin> set nicks \<Longrightarrow>
   length (analysis_queue s) + length nicks \<le> analysis_queue_maxsize \<Longrightarrow>
     analysis_queue (foldl (\<lambda>s nick. on_join nick s) s nicks) = analysis_queue s @ nicks
     \<and> users_being_analyzed (foldl (\<lambda>s nick. on_join nick s) s nicks)
         = users_being_analyzed s \<union> set nicks
     \<and> bot_profile (foldl (\<lambda>s nick. on_join nick s) s nicks) = bot_profile s"
proof (induction nicks arbitrary: s)
  case Nil
  then show ?case by simp
next
  case (Cons nick nicks)
  let ?s1 = "s\<lparr>users_being_analyzed := insert nick (users_being_analyzed s),
               analysis_queue := analysis_queue s @ [nick]\<rparr>"
  have j: "on_join nick s = ?s1"
    using Cons.prems by (auto simp: on_join_def enqueue_analysis_def Let_def)
  have "analysis_queue (foldl (\<lambda>s nick. on_join nick s) ?s1 nicks) = analysis_queue ?s1 @ nicks
     \<and> users_being_analyzed (foldl (\<lambda>s nick. on_join nick s) ?s1 nicks)
         = users_being_analyzed ?s1 \<union> set nicks
     \<and> bot_profile (foldl (\<lambda>s nick. on_join nick s) ?s1 nicks) = bot_profile ?s1"
    using Cons.prems by (intro Cons.IH) auto
  then show ?case by (simp add: j)
qed

lemma crowd_state_eval:
  "analysis_queue crowd_state = crowd \<and> users_being_analyzed crowd_state = set crowd
   \<and> bot_profile crowd_state = example_bot 18 35 ''Tous''"
proof -
  have "set crowd \<inter> users_being_analyzed example_state = {}"
    by (simp add: example_state_def new_IRCBotAdvanced_def)
  moreover have "nickname (bot_profile example_state) \<notin> set crowd"
    using crowd_prefix[of "''Lea42''"]
    by (auto simp: example_state_def new_IRCBotAdvanced_def example_bot_def)
  moreover have "length (analysis_queue example_state) + length crowd \<le> analysis_queue_maxsize"
    by (simp add: crowd_length analysis_queue_maxsize_def example_state_def new_IRCBotAdvanced_def)
  ultimately show ?thesis
    using joins_fill[OF crowd_distinct, of example_state]
    by (simp add: crowd_state_def example_state_def new_IRCBotAdvanced_def)
qed

theorem in_flight_marker_leaks_witness:
  "reachable (crowd_state, None)
   \<and> length (analysis_queue crowd_state) = 50
   \<and> ''zoe'' \<notin> users_being_analyzed crowd_state
   \<and> ''zoe'' \<in> users_being_analyzed (on_join ''zoe'' crowd_state)
   \<and> ''zoe'' \<notin> set (analysis_queue (on_join ''zoe'' crowd_state))
   \<and> ''zoe'' \<in> users_being_analyzed (on_join ''zoe'' (on_join ''zoe'' crowd_state))
   \<and> ''zoe'' \<notin> set (analysis_queue (on_join ''zoe'' (on_join ''zoe'' crowd_state)))"
proof -
  note ev = crowd_state_eval
  have r: "reachable (crowd_state, None)"
    unfolding crowd_state_def
    by (rule reachable_joins) (simp add: example_state_def reachable.init)
  have z: "''zoe'' \<notin> set crowd"
    using crowd_prefix[of "''zoe''"] by auto
  have h1: "analysis_queue_maxsize \<le> length (analysis_queue crowd_state)"
    by (simp add: ev crowd_length analysis_queue_maxsize_def)
  have h2: "''zoe'' \<noteq> nickname (bot_profile crowd_state)"
    by (simp add: ev example_bot_def)
  have h3: "''zoe'' \<notin> users_being_analyzed crowd_state"
    by (simp add: ev z)
  have h4: "''zoe'' \<notin> set (tasks (crowd_state, None))"
    by (simp add: tasks_def ev z)
  have s0: "step\<^sup>*\<^sup>* (on_join ''zoe'' crowd_state, None) (on_join ''zoe'' crowd_state, None)"
    by simp
  have s1: "step\<^sup>*\<^sup>* (on_join ''zoe'' crowd_state, None)
      (on_join ''zoe'' (on_join ''zoe'' crowd_state), None)"
    by (rule r_into_rtranclp) (rule step.join)
  from in_flight_marker_leaks[OF h1 h2 h3 h4 s0] in_flight_marker_leaks[OF h1 h2 h3 h4 s1]
    r h3 show ?thesis
    by (simp add: tasks_def ev crowd_length)
qed

section \<open>The analysis of a handle\<close>

lemma get_user_profile_username: "username (get_user_profile ok d u) = u"
  by (auto simp: get_user_profile_def new_UserProfile_def split: option.splits dest: find_Some_D)

lemma merged_username_is_handle: "username (merged_profile e u s) = u"
  by (simp add: merged_username get_user_profile_username)

lemma flushed_empty: "write_queue d = [] \<Longrightarrow> flushed d = d"
  by (simp add: flushed_def)

lemma write_queue_flushed [simp]: "write_queue (flushed d) = []"
  by (simp add: flushed_def)

lemma drain_writes_fields [simp]:
  "db (drain_writes s) = flushed (db s)"
  "privmsgs (drain_writes s) = privmsgs s"
  by (simp_all add: drain_writes_def writer_drains)

lemma sent_to_drain [simp]: "sent_to h (drain_writes s) = sent_to h s"
  by (simp add: sent_to_def)

lemma analyze_user_engages:
  assumes "engages e u s"
  shows "db (analyze_user e u s) =
           queue_put (Save_user (user_data (now e)
               ((merged_profile e u s)\<lparr>conversation_count := 1\<rparr>)))
             (queue_put (Save_user (user_data (now e) (merged_profile e u s))) (db s))"
    and "privmsgs (analyze_user e u s) =
           privmsgs s @ [(u, random_choice (opening_messages u (merged_profile e u s)) (choice e))]"
  using assms
  by (simp_all add: engages_def analyze_user_def initiate_conversation_def Let_def
      save_user_profile_def)

lemma analyze_user_skips:
  assumes "\<not> engages e u s"
  shows "db (analyze_user e u s) =
           queue_put (Save_user (user_data (now e) (merged_profile e u s))) (db s)"
    and "privmsgs (analyze_user e u s) = privmsgs s"
  using assms
  by (auto simp: engages_def analyze_user_def initiate_conversation_def Let_def
      save_user_profile_def)

lemma find_other_after_replace:
  "f x \<noteq> h \<Longrightarrow>
     List.find (\<lambda>r. f r = h) (filter (\<lambda>r. f r \<noteq> f x) xs @ [x]) = List.find (\<lambda>r. f r = h) xs"
  by (induction xs) auto

lemma stored_count_execute:
  "stored_count h (execute_write_operation True (Save_user row) d) =
     (if col_username row = h then col_conversation_count row else stored_count h d)"
proof (cases "col_username row = h")
  case True
  then show ?thesis
    using users_execute_save_user[of row d]
    by (simp add: stored_count_def get_user_profile_def)
next
  case False
  then show ?thesis
    using find_other_after_replace[of col_username row h "users d"]
    by (simp add: stored_count_def get_user_profile_def execute_write_operation_def)
qed

lemma stored_count_merged:
  "sqlite_read_ok e \<Longrightarrow> conversation_count (merged_profile e u s) = stored_count u (db s)"
  by (simp add: merged_count stored_count_def)

lemma user_data_fields [simp]:
  "col_username (user_data t p) = username p"
  "col_conversation_count (user_data t p) = conversation_count p"
  by (simp_all add: user_data_def)

lemma stored_count_after_cycle:
  assumes "write_queue (db s) = []"
  shows "stored_count h (flushed (db (analyze_user e u s))) =
     (if h = u then (if engages e u s then 1 else conversation_count (merged_profile e u s))
      else stored_count h (db s))"
proof (cases "engages e u s")
  case True
  show ?thesis
    using assms True
    by (auto simp: analyze_user_engages(1)[OF True] flushed_put flushed_empty stored_count_execute
        merged_username_is_handle)
next
  case False
  show ?thesis
    using assms False
    by (auto simp: analyze_user_skips(1)[OF False] flushed_put flushed_empty stored_count_execute
        merged_username_is_handle)
qed

lemma sent_to_after_cycle:
  "sent_to h (analyze_user e u s) =
     sent_to h s @ (if h = u \<and> engages e u s
        then [random_choice (opening_messages u (merged_profile e u s)) (choice e)] else [])"
proof (cases "engages e u s")
  case True
  then show ?thesis by (simp add: sent_to_def analyze_user_engages(2))
next
  case False
  then show ?thesis by (simp add: sent_to_def analyze_user_skips(2))
qed

lemma zoe_derived:
  "analyze_username 2026 ''zoe'' = \<lparr>info_gender = None, info_age = None, info_city = None\<rparr>"
proof -
  have m: "List.find (\<lambda>indicator. str_contains indicator (lower ''zoe'')) male_indicators = None"
    by (simp add: male_indicators_def case_eval)
  have f: "List.find (\<lambda>indicator. str_contains indicator (lower ''zoe'')) female_indicators = None"
    by (simp add: female_indicators_def case_eval)
  have y: "List.find (\<lambda>year. str_contains (str_int year) ''zoe'') (py_range 1980 2010) = None"
    by (simp add: str_eval py_range_def)
  have a: "List.find (\<lambda>i. str_contains (str_int i) ''zoe'') (py_range 18 100) = None"
    by (simp add: str_eval py_range_def)
  have c: "List.find (\<lambda>city. str_contains city (lower ''zoe'')) cities = None"
    by (simp add: cities_def case_eval)
  show ?thesis
    unfolding analyze_username_def Let_def m f y a c by simp
qed

lemma zoe_engages: "engages example_env ''zoe'' example_state"
proof -
  have y: "current_year example_env = 2026" by (simp add: example_env_def)
  have p: "merged_profile example_env ''zoe'' example_state =
      (new_UserProfile ''zoe'')\<lparr>last_seen := Some (now example_env), targeted := True\<rparr>"
    unfolding merged_profile_def Let_def y zoe_derived
    by (simp add: get_user_profile_def example_state_def new_IRCBotAdvanced_def
        new_DatabaseManager_def new_UserProfile_def truthy_int_def truthy_str_def
        matches_targeting_criteria_def example_bot_def dict_get_def)
  show ?thesis
    unfolding engages_def p by (simp add: new_UserProfile_def example_env_def)
qed

lemma merged_profile_cong:
  "users (db s') = users (db s) \<Longrightarrow> bot_profile s' = bot_profile s \<Longrightarrow>
     merged_profile e u s' = merged_profile e u s"
  by (simp add: merged_profile_def get_user_profile_def)

lemma analyze_user_store_untouched:
  "users (db (analyze_user e u s)) = users (db s) \<and> bot_profile (analyze_user e u s) = bot_profile s"
  by (simp add: analyze_user_def initiate_conversation_def Let_def save_user_profile_def
      queue_put_def)

lemma get_user_profile_failed:
  "get_user_profile False d u = new_UserProfile u"
  by (simp add: get_user_profile_def)

section \<open>Stored attributes and derived ones\<close>

text \<open>
  C4, as the claim states it, fails in two ways. A stored age of 0 is replaced by the
  derived age, because \<open>if not user_profile.age\<close> takes 0 for an unknown age. And when
  the read of the store fails, \<open>get_user_profile\<close> returns the default profile, so the
  analysis of \<open>bob25\<close> merges the derived age 25 and saves it over the stored age 40.
\<close>

theorem merge_counterexample:
  "col_age (example_row ''bob25'' (Some 0)) = Some 0
   \<and> users (db (seeded 0)) = [example_row ''bob25'' (Some 0)]
   \<and> sqlite_read_ok example_env
   \<and> age (merged_profile example_env ''bob25'' (seeded 0)) = Some 25
   \<and> users (db (seeded 40)) = [example_row ''bob25'' (Some 40)]
   \<and> age (merged_profile (example_env\<lparr>sqlite_read_ok := False\<rparr>) ''bob25'' (seeded 40)) = Some 25
   \<and> map (\<lambda>r. (col_username r, col_age r))
        (users (db (drain_writes
           (analyze_user (example_env\<lparr>sqlite_read_ok := False\<rparr>) ''bob25'' (seeded 40)))))
       = [(''bob25'', Some 25)]"
proof -
  let ?e = "example_env\<lparr>sqlite_read_ok := False\<rparr>"
  have y: "current_year ?e = 2026" "current_year example_env = 2026" "\<not> sqlite_read_ok ?e"
    "sqlite_read_ok example_env"
    by (simp_all add: example_env_def)
  have a0: "age (merged_profile example_env ''bob25'' (seeded 0)) = Some 25"
    by (simp add: merged_age bob25_info_age get_user_profile_def seeded_def example_defs truthy_int_def)
  have a40: "age (merged_profile ?e ''bob25'' (seeded 40)) = Some 25"
    by (simp add: merged_age y bob25_info_age get_user_profile_failed new_UserProfile_def
        truthy_int_def)
  have n: "username (merged_profile ?e ''bob25'' (seeded 40)) = ''bob25''"
    by (simp add: merged_username get_user_profile_username)
  have u: "users (db (seeded a)) = [example_row ''bob25'' (Some a)]"
    "write_queue (db (seeded a)) = []" for a
    by (simp_all add: seeded_def new_IRCBotAdvanced_def new_DatabaseManager_def)
  have st: "map (\<lambda>r. (col_username r, col_age r))
        (users (db (drain_writes (analyze_user ?e ''bob25'' (seeded 40))))) = [(''bob25'', Some 25)]"
  proof (cases "engages ?e ''bob25'' (seeded 40)")
    case True
    show ?thesis
      by (simp add: analyze_user_engages(1)[OF True] flushed_put flushed_empty u
          execute_write_operation_def user_data_def a40 n example_row_def)
  next
    case False
    show ?thesis
      by (simp add: analyze_user_skips(1)[OF False] flushed_put flushed_empty u
          execute_write_operation_def user_data_def a40 n example_row_def)
  qed
  from a0 a40 st show ?thesis
    by (simp add: u y example_row_def)
qed

text \<open>
  C4, amended. Let the store hold a profile of the handle. When the read of the store
  succeeds, a stored age other than 0, a stored gender other than the empty string and a
  stored city other than the empty string are kept by the merge, whatever the handle
  yields; a stored attribute that is absent, or 0, or empty, is replaced by the derived
  value when that is present and not 0 or empty, and is left as it is otherwise. When the
  read fails, the merge starts from the default profile: each derived value that is
  present and not 0 or empty becomes the merged value, whatever is stored, and the other
  attributes are absent. In both cases the first intent that \<open>_analyze_user\<close> submits
  is the merged profile, under the handle. The witness is the profile seeded with the
  age 40 and the handle \<open>bob25\<close>: the derived age is 25; with the read working the merged
  age is 40 and the store holds 40 once the write is applied; with the read failing the
  merged age is 25.
\<close>

theorem stored_attributes_win:
  fixes e :: env and u :: string and s :: IRCBotAdvanced
  defines "m \<equiv> merged_profile e u s"
    and "d \<equiv> analyze_username (current_year e) u"
  assumes "List.find (\<lambda>r. col_username r = u) (users (db s)) = Some row"
  shows "(sqlite_read_ok e \<longrightarrow>
            (\<forall>a. col_age row = Some a \<and> a \<noteq> 0 \<longrightarrow> age m = Some a)
          \<and> (\<forall>g. col_gender row = Some g \<and> g \<noteq> [] \<longrightarrow> gender m = Some g)
          \<and> (\<forall>c. col_city row = Some c \<and> c \<noteq> [] \<longrightarrow> city m = Some c)
          \<and> (col_age row = None \<or> col_age row = Some 0 \<longrightarrow>
                (\<forall>b. info_age d = Some b \<and> b \<noteq> 0 \<longrightarrow> age m = Some b)
              \<and> (info_age d = None \<or> info_age d = Some 0 \<longrightarrow> age m = col_age row))
          \<and> (col_gender row = None \<or> col_gender row = Some [] \<longrightarrow>
                (\<forall>g. info_gender d = Some g \<and> g \<noteq> [] \<longrightarrow> gender m = Some g)
              \<and> (info_gender d = None \<or> info_gender d = Some [] \<longrightarrow> gender m = col_gender row))
          \<and> (col_city row = None \<or> col_city row = Some [] \<longrightarrow>
                (\<forall>c. info_city d = Some c \<and> c \<noteq> [] \<longrightarrow> city m = Some c)
              \<and> (info_city d = None \<or> info_city d = Some [] \<longrightarrow> city m = col_city row)))
       \<and> (\<not> sqlite_read_ok e \<longrightarrow>
            (\<forall>b. info_age d = Some b \<and> b \<noteq> 0 \<longrightarrow> age m = Some b)
          \<and> (info_age d = None \<or> info_age d = Some 0 \<longrightarrow> age m = None)
          \<and> (\<forall>g. info_gender d = Some g \<and> g \<noteq> [] \<longrightarrow> gender m = Some g)
          \<and> (info_gender d = None \<or> info_gender d = Some [] \<longrightarrow> gender m = None)
          \<and> (\<forall>c. info_city d = Some c \<and> c \<noteq> [] \<longrightarrow> city m = Some c)
          \<and> (info_city d = None \<or> info_city d = Some [] \<longrightarrow> city m = None))
       \<and> (\<exists>rest. write_queue (db (analyze_user e u s)) =
             write_queue (db s) @ Save_user (user_data (now e) m) # rest)
       \<and> col_username (user_data (now e) m) = u
       \<and> col_age (user_data (now e) m) = age m
       \<and> col_gender (user_data (now e) m) = gender m
       \<and> col_city (user_data (now e) m) = city m"
proof -
  note found = get_user_profile_found[OF assms(3)]
  have ok: "sqlite_read_ok e \<longrightarrow>
            (\<forall>a. col_age row = Some a \<and> a \<noteq> 0 \<longrightarrow> age m = Some a)
          \<and> (\<forall>g. col_gender row = Some g \<and> g \<noteq> [] \<longrightarrow> gender m = Some g)
          \<and> (\<forall>c. col_city row = Some c \<and> c \<noteq> [] \<longrightarrow> city m = Some c)
          \<and> (col_age row = None \<or> col_age row = Some 0 \<longrightarrow>
                (\<forall>b. info_age d = Some b \<and> b \<noteq> 0 \<longrightarrow> age m = Some b)
              \<and> (info_age d = None \<or> info_age d = Some 0 \<longrightarrow> age m = col_age row))
          \<and> (col_gender row = None \<or> col_gender row = Some [] \<longrightarrow>
                (\<forall>g. info_gender d = Some g \<and> g \<noteq> [] \<longrightarrow> gender m = Some g)
              \<and> (info_gender d = None \<or> info_gender d = Some [] \<longrightarrow> gender m = col_gender row))
          \<and> (col_city row = None \<or> col_city row = Some [] \<longrightarrow>
                (\<forall>c. info_city d = Some c \<and> c \<noteq> [] \<longrightarrow> city m = Some c)
              \<and> (info_city d = None \<or> info_city d = Some [] \<longrightarrow> city m = col_city row))"
    using found unfolding m_def d_def
    by (auto simp: merged_age merged_gender merged_city truthy_int_def truthy_str_def)
  have failed: "\<not> sqlite_read_ok e \<longrightarrow>
            (\<forall>b. info_age d = Some b \<and> b \<noteq> 0 \<longrightarrow> age m = Some b)
          \<and> (info_age d = None \<or> info_age d = Some 0 \<longrightarrow> age m = None)
          \<and> (\<forall>g. info_gender d = Some g \<and> g \<noteq> [] \<longrightarrow> gender m = Some g)
          \<and> (info_gender d = None \<or> info_gender d = Some [] \<longrightarrow> gender m = None)
          \<and> (\<forall>c. info_city d = Some c \<and> c \<noteq> [] \<longrightarrow> city m = Some c)
          \<and> (info_city d = None \<or> info_city d = Some [] \<longrightarrow> city m = None)"
    unfolding m_def d_def
    by (auto simp: merged_age merged_gender merged_city truthy_int_def truthy_str_def
        get_user_profile_failed new_UserProfile_def)
  have q: "\<exists>rest. write_queue (db (analyze_user e u s)) =
             write_queue (db s) @ Save_user (user_data (now e) m) # rest"
    unfolding m_def by (rule analyze_user_queue)
  have cols: "col_username (user_data (now e) m) = u"
    "col_age (user_data (now e) m) = age m"
    "col_gender (user_data (now e) m) = gender m"
    "col_city (user_data (now e) m) = city m"
    unfolding m_def by (simp_all add: user_data_def merged_username_is_handle)
  from ok failed q cols show ?thesis by blast
qed

theorem stored_attributes_win_witness:
  "List.find (\<lambda>r. col_username r = ''bob25'') (users (db (seeded 40))) = Some (example_row ''bob25'' (Some 40))
   \<and> sqlite_read_ok example_env
   \<and> info_age (analyze_username (current_year example_env) ''bob25'') = Some 25
   \<and> age (merged_profile example_env ''bob25'' (seeded 40)) = Some 40
   \<and> map (\<lambda>r. (col_username r, col_age r))
        (users (db (drain_writes (analyze_user example_env ''bob25'' (seeded 40))))) = [(''bob25'', Some 40)]
   \<and> age (merged_profile (example_env\<lparr>sqlite_read_ok := False\<rparr>) ''bob25'' (seeded 40)) = Some 25"
proof -
  let ?f = "example_env\<lparr>sqlite_read_ok := False\<rparr>"
  have ok: "sqlite_read_ok example_env" "\<not> sqlite_read_ok ?f"
    "current_year ?f = current_year example_env"
    by (simp_all add: example_env_def)
  have found: "List.find (\<lambda>r. col_username r = ''bob25'') (users (db (seeded 40)))
      = Some (example_row ''bob25'' (Some 40))"
    by (simp add: seeded_def example_defs)
  have m_age: "age (merged_profile example_env ''bob25'' (seeded 40)) = Some 40"
    using stored_attributes_win[OF found, of example_env] ok(1) by (simp add: example_row_def)
  have f_age: "age (merged_profile ?f ''bob25'' (seeded 40)) = Some 25"
    using stored_attributes_win[OF found, of ?f] ok(2)
    by (simp add: ok(3) bob25_info_age)
  have m_name: "username (merged_profile example_env ''bob25'' (seeded 40)) = ''bob25''"
    by (rule merged_username_is_handle)
  have bp: "bot_profile (seeded 40) = example_bot 18 35 ''Tous''"
    by (simp add: seeded_def new_IRCBotAdvanced_def)
  have m_t: "\<not> targeted (merged_profile example_env ''bob25'' (seeded 40))"
    unfolding merged_targeted bp
    by (simp add: matches_targeting_criteria_def Let_def m_age truthy_int_def
        example_bot_def dict_get_def)
  have q: "write_queue (db (seeded 40)) = []" "users (db (seeded 40)) = [example_row ''bob25'' (Some 40)]"
    by (simp_all add: seeded_def new_IRCBotAdvanced_def new_DatabaseManager_def)
  have ne: "\<not> engages example_env ''bob25'' (seeded 40)"
    using m_t by (simp add: engages_def)
  have "map (\<lambda>r. (col_username r, col_age r))
        (users (db (drain_writes (analyze_user example_env ''bob25'' (seeded 40))))) = [(''bob25'', Some 40)]"
    by (simp add: analyze_user_skips(1)[OF ne] flushed_put flushed_empty q
        execute_write_operation_def user_data_def m_age m_name example_row_def)
  with ok found m_age f_age show ?thesis
    by (simp add: bob25_info_age)
qed

section \<open>The engagement trigger\<close>

lemma engagement_gate:
  assumes "privmsgs (analyze_user e u s) \<noteq> privmsgs s"
  shows "targeted (merged_profile e u s) \<and> conversation_count (merged_profile e u s) = 0
     \<and> last (write_queue (db (analyze_user e u s))) =
         Save_user (user_data (now e) ((merged_profile e u s)\<lparr>conversation_count := 1\<rparr>))"
proof -
  from assms have eng: "engages e u s"
    using analyze_user_skips(2)[of e u s] by blast
  then show ?thesis
    by (simp add: analyze_user_engages(1)[OF eng] queue_put_def engages_def)
qed

lemma counter_blocks:
  "sqlite_read_ok e \<Longrightarrow> stored_count u (db s) \<noteq> 0 \<Longrightarrow>
     privmsgs (analyze_user e u s) = privmsgs s"
  by (rule analyze_user_skips(2)) (simp add: engages_def stored_count_merged)

lemma zoe_merged:
  "merged_profile example_env ''zoe'' example_state =
      (new_UserProfile ''zoe'')\<lparr>last_seen := Some (now example_env), targeted := True\<rparr>"
proof -
  have y: "current_year example_env = 2026" by (simp add: example_env_def)
  show ?thesis
    unfolding merged_profile_def Let_def y zoe_derived
    by (simp add: get_user_profile_def example_state_def new_IRCBotAdvanced_def
        new_DatabaseManager_def new_UserProfile_def truthy_int_def truthy_str_def
        matches_targeting_criteria_def example_bot_def dict_get_def)
qed

lemma namreply_loop_rest [simp]:
  "db (namreply_loop names s) = db s"
  "privmsgs (namreply_loop names s) = privmsgs s"
  "bot_profile (namreply_loop names s) = bot_profile s"
  by (induction names arbitrary: s)
    (auto simp: Let_def enqueue_analysis_def split: option.splits if_splits)

lemma on_namreply_rest [simp]:
  "db (on_namreply arguments s) = db s"
  "privmsgs (on_namreply arguments s) = privmsgs s"
  "bot_profile (on_namreply arguments s) = bot_profile s"
  by (simp_all add: on_namreply_def Let_def)

lemma on_join_rest [simp]:
  "db (on_join nick s) = db s"
  "privmsgs (on_join nick s) = privmsgs s"
  "bot_profile (on_join nick s) = bot_profile s"
  "analysis_worker_started (on_join nick s) = analysis_worker_started s"
  by (simp_all add: on_join_def Let_def enqueue_analysis_def)

lemma analyze_user_rest [simp]:
  "bot_profile (analyze_user e u s) = bot_profile s"
  "analysis_worker_started (analyze_user e u s) = analysis_worker_started s"
  by (simp_all add: analyze_user_def initiate_conversation_def Let_def)

lemma on_pubmsg_rest [simp]:
  "privmsgs (on_pubmsg e nick message s) = privmsgs s"
  "bot_profile (on_pubmsg e nick message s) = bot_profile s"
  "analysis_worker_started (on_pubmsg e nick message s) = analysis_worker_started s"
  by (simp_all add: on_pubmsg_def Let_def)

lemma writer_turn_rest [simp]:
  "db (writer_turn ok s) = database_writer_iteration ok (db s)"
  "privmsgs (writer_turn ok s) = privmsgs s"
  "bot_profile (writer_turn ok s) = bot_profile s"
  "analysis_worker_started (writer_turn ok s) = analysis_worker_started s"
  "analysis_queue (writer_turn ok s) = analysis_queue s"
  "users_being_analyzed (writer_turn ok s) = users_being_analyzed s"
  by (simp_all add: writer_turn_def)

lemma names_reply_pipeline:
  "analysis_queue (on_namreply names_reply example_state) = [''zoe'']"
  "users_being_analyzed (on_namreply names_reply example_state) = {''zoe''}"
  "analysis_worker_started (on_namreply names_reply example_state)"
  by (simp_all add: on_namreply_def names_reply_def Let_def is_space_def lstrip_def
      enqueue_analysis_def analysis_queue_maxsize_def example_state_def new_IRCBotAdvanced_def
      example_bot_def)

lemma example_state_fields:
  "db example_state = new_DatabaseManager" "privmsgs example_state = []"
  "bot_profile example_state = example_bot 18 35 ''Tous''"
  by (simp_all add: example_state_def new_IRCBotAdvanced_def)

lemma example_env_fields:
  "choice example_env = 0" "is_connected example_env" "privmsg_ok example_env"
  "sqlite_read_ok example_env" "current_year example_env = 2026"
  by (simp_all add: example_env_def)

lemma engaged_once_engages:
  "engages example_env ''zoe'' ((on_namreply names_reply example_state)\<lparr>analysis_queue := []\<rparr>)"
proof -
  have "merged_profile example_env ''zoe'' ((on_namreply names_reply example_state)\<lparr>analysis_queue := []\<rparr>)
      = merged_profile example_env ''zoe'' example_state"
    by (rule merged_profile_cong) simp_all
  with zoe_engages show ?thesis by (simp add: engages_def)
qed

lemma engaged_once_db:
  "db engaged_once =
     new_DatabaseManager\<lparr>write_queue :=
       [Save_user (user_data (now example_env)
          ((new_UserProfile ''zoe'')\<lparr>last_seen := Some (now example_env), targeted := True\<rparr>)),
        Save_user (user_data (now example_env)
          ((new_UserProfile ''zoe'')\<lparr>last_seen := Some (now example_env), targeted := True,
             conversation_count := 1\<rparr>))]\<rparr>"
proof -
  have m: "merged_profile example_env ''zoe'' ((on_namreply names_reply example_state)\<lparr>analysis_queue := []\<rparr>)
      = merged_profile example_env ''zoe'' example_state"
    by (rule merged_profile_cong) simp_all
  show ?thesis
    unfolding engaged_once_def analyze_user_engages(1)[OF engaged_once_engages] m zoe_merged
    by (simp add: queue_put_def example_state_fields new_DatabaseManager_def)
qed

lemma engaged_once_sent:
  "sent_to ''zoe'' engaged_once = [''Salut zoe ! Comment '' @ c_cedilla @ ''a va ?'']"
proof -
  have base: "sent_to ''zoe'' ((on_namreply names_reply example_state)\<lparr>analysis_queue := []\<rparr>) = []"
    by (simp add: sent_to_def example_state_fields)
  show ?thesis
    unfolding engaged_once_def
    by (simp add: sent_to_after_cycle engaged_once_engages base example_env_fields
        random_choice_def opening_messages_def)
qed

lemma engaged_once_bot: "bot_profile engaged_once = example_bot 18 35 ''Tous''"
  by (simp add: engaged_once_def example_state_fields)

lemma persisted_db:
  "db persisted =
     \<lparr>users = [user_data (now example_env)
                 ((new_UserProfile ''zoe'')\<lparr>last_seen := Some (now example_env)\<rparr>)],
      conversations = [], write_queue = []\<rparr>"
  unfolding persisted_def spoken_def
  by (simp add: on_pubmsg_def Let_def engaged_once_db engaged_once_bot example_env_fields
      example_bot_def get_user_profile_def new_DatabaseManager_def save_user_profile_def
      queue_put_def database_writer_iteration_def execute_write_operation_def user_data_def
      new_UserProfile_def)

lemma persisted_merged:
  "merged_profile example_env ''zoe'' persisted =
      (new_UserProfile ''zoe'')\<lparr>last_seen := Some (now example_env), targeted := True\<rparr>"
proof -
  have bp: "bot_profile persisted = example_bot 18 35 ''Tous''"
    by (simp add: persisted_def spoken_def engaged_once_def example_state_fields)
  show ?thesis
    unfolding merged_profile_def Let_def example_env_fields zoe_derived persisted_db bp
    by (simp add: get_user_profile_def user_data_def new_UserProfile_def truthy_int_def
        truthy_str_def matches_targeting_criteria_def example_bot_def dict_get_def)
qed

lemma engaged_twice_engages:
  "engages example_env ''zoe'' ((on_join ''zoe'' persisted)\<lparr>analysis_queue := []\<rparr>)"
proof -
  have "merged_profile example_env ''zoe'' ((on_join ''zoe'' persisted)\<lparr>analysis_queue := []\<rparr>)
      = merged_profile example_env ''zoe'' persisted"
    by (rule merged_profile_cong) simp_all
  then show ?thesis
    by (simp add: engages_def persisted_merged new_UserProfile_def example_env_fields)
qed

lemma persisted_sent: "sent_to ''zoe'' persisted = sent_to ''zoe'' engaged_once"
  by (simp add: sent_to_def persisted_def spoken_def)

lemma engaged_twice_sent:
  "sent_to ''zoe'' engaged_twice =
     [''Salut zoe ! Comment '' @ c_cedilla @ ''a va ?'',
      ''Salut zoe ! Comment '' @ c_cedilla @ ''a va ?'']"
proof -
  have m: "merged_profile example_env ''zoe'' ((on_join ''zoe'' persisted)\<lparr>analysis_queue := []\<rparr>)
      = merged_profile example_env ''zoe'' persisted"
    by (rule merged_profile_cong) simp_all
  have "sent_to ''zoe'' ((on_join ''zoe'' persisted)\<lparr>analysis_queue := []\<rparr>) = sent_to ''zoe'' engaged_once"
    using persisted_sent by (simp add: sent_to_def)
  then show ?thesis
    unfolding engaged_twice_def
    by (simp add: sent_to_after_cycle engaged_twice_engages engaged_once_sent m persisted_merged
        example_env_fields random_choice_def opening_messages_def new_UserProfile_def
        truthy_str_def truthy_int_def)
qed

lemma persisted_pipeline:
  "analysis_queue persisted = []" "users_being_analyzed persisted = {}"
  "analysis_worker_started persisted"
  by (simp_all add: persisted_def spoken_def engaged_once_def names_reply_pipeline)

lemma engaged_twice_reachable: "reachable (engaged_twice, None)"
proof -
  have "reachable (example_state, None)"
    unfolding example_state_def by (rule reachable.init)
  then have "reachable (on_namreply names_reply example_state, None)"
    by (rule reachable.after) (rule step.namreply)
  then have "reachable ((on_namreply names_reply example_state)\<lparr>analysis_queue := []\<rparr>, Some ''zoe'')"
    by (rule reachable.after) (rule step.worker_get, simp_all add: names_reply_pipeline)
  then have "reachable (engaged_once, None)"
    unfolding engaged_once_def by (rule reachable.after) (rule step.worker_analyze)
  then have "reachable (spoken, None)"
    unfolding spoken_def by (rule reachable.after) (rule step.pubmsg)
  then have "reachable (writer_turn True spoken, None)"
    unfolding writer_turn_def by (rule reachable.after) (rule step.writer)
  then have "reachable (writer_turn True (writer_turn True spoken), None)"
    unfolding writer_turn_def by (rule reachable.after) (rule step.writer)
  then have "reachable (persisted, None)"
    unfolding persisted_def writer_turn_def by (rule reachable.after) (rule step.writer)
  then have "reachable (on_join ''zoe'' persisted, None)"
    by (rule reachable.after) (rule step.join)
  moreover have "analysis_queue (on_join ''zoe'' persisted) = [''zoe'']"
    by (simp add: on_join_def Let_def enqueue_analysis_def analysis_queue_maxsize_def
        persisted_pipeline persisted_merged[symmetric] example_bot_def
        persisted_def spoken_def engaged_once_def example_state_fields)
  ultimately have "reachable ((on_join ''zoe'' persisted)\<lparr>analysis_queue := []\<rparr>, Some ''zoe'')"
    by (intro reachable.after[OF _ step.worker_get]) (simp_all add: persisted_pipeline)
  then show ?thesis
    unfolding engaged_twice_def by (rule reachable.after) (rule step.worker_analyze)
qed

text \<open>
  C1. The gate of the claim is in the code: \<open>_analyze_user\<close> sends an opening message
  only when the merged profile is targeted and its counter is 0, and then submits the
  profile with the counter at 1 (\<open>engagement_gate\<close>); a cycle that reads a counter other
  than 0 sends nothing (\<open>counter_blocks\<close>). But the counter reaches the store through
  the queue, and \<open>on_pubmsg\<close> writes back the profile it has read. In the run below the
  names reply lists \<open>zoe\<close>, the worker analyses her and the opening message goes out;
  she says something in the channel before the writer has had a turn, and \<open>on_pubmsg\<close>,
  which read the store without the counter, queues its copy with the counter at 0; the
  writer applies the three intents, that copy last; she joins again, the analysis reads
  the store, where her counter is 0 with no write pending, and a second opening message
  goes out.
\<close>

theorem engagement_repeats:
  "reachable (engaged_twice, None)
   \<and> sent_to ''zoe'' engaged_once = [''Salut zoe ! Comment '' @ c_cedilla @ ''a va ?'']
   \<and> write_queue (db persisted) = []
   \<and> map (\<lambda>r. (col_username r, col_conversation_count r)) (users (db persisted)) = [(''zoe'', 0)]
   \<and> sqlite_read_ok example_env
   \<and> sent_to ''zoe'' engaged_twice =
        [''Salut zoe ! Comment '' @ c_cedilla @ ''a va ?'',
         ''Salut zoe ! Comment '' @ c_cedilla @ ''a va ?'']"
  using engaged_twice_reachable engaged_once_sent engaged_twice_sent
  by (simp add: persisted_db user_data_def new_UserProfile_def example_env_fields)

text \<open>
  No other handler is needed for that. A second cycle for the same handle that starts
  before the writer has had its turn reads the store as it was, finds the counter at 0,
  and sends a second message.
\<close>

lemma stale_read_engages_again:
  "sent_to ''zoe'' (analyze_user example_env ''zoe'' (analyze_user example_env ''zoe'' example_state))
     = [''Salut zoe ! Comment '' @ c_cedilla @ ''a va ?'',
        ''Salut zoe ! Comment '' @ c_cedilla @ ''a va ?'']"
proof -
  let ?s1 = "analyze_user example_env ''zoe'' example_state"
  have m: "merged_profile example_env ''zoe'' ?s1 = merged_profile example_env ''zoe'' example_state"
    using analyze_user_store_untouched[of example_env "''zoe''" example_state]
    by (intro merged_profile_cong) simp_all
  have e2: "engages example_env ''zoe'' ?s1"
    using zoe_engages by (simp add: engages_def m)
  have ch: "choice example_env = 0"
    by (simp add: example_env_def)
  have s0: "sent_to ''zoe'' example_state = []"
    by (simp add: sent_to_def example_state_def new_IRCBotAdvanced_def)
  show ?thesis
    by (simp add: sent_to_after_cycle zoe_engages e2 s0 ch random_choice_def opening_messages_def)
qed

end
